theory Spec2Isabelle
  imports Complex_Main "HOL-Library.Multiset"
begin


section \<open>Python values, records and exceptions\<close>

text \<open>
  A cell of a result dictionary. A float is given by the real number it stands for;
  \<open>NaN\<close> is numpy's not-a-number.
\<close>

datatype pyval = StrV string | IntV int | FloatV real | NaN

text \<open>A Python \<open>dict\<close> with string keys, in insertion order.\<close>

type_synonym pyrecord = "(string \<times> pyval) list"

text \<open>
  The exceptions a task can meet. The first two are raised by networkx, \<open>ValueError\<close>
  by Python's \<open>max\<close> and \<open>min\<close> on an empty sequence, and the last stands for whatever
  the structure parser or the bonding strategy raises.
\<close>

datatype exn =
    NetworkXPointlessConcept string
  | NetworkXError string
  | ValueError string
  | StructureError string

text \<open>What \<open>f"{e}"\<close> prints.\<close>

fun exn_message :: "exn \<Rightarrow> string" where
  "exn_message (NetworkXPointlessConcept m) = m"
| "exn_message (NetworkXError m) = m"
| "exn_message (ValueError m) = m"
| "exn_message (StructureError m) = m"

text \<open>A computation that ends in an exception.\<close>

definition raises :: "exn + 'a \<Rightarrow> bool" where
  "raises r \<longleftrightarrow> isl r"

text \<open>The elements of a list in order of first occurrence, those in \<open>seen\<close> left out.\<close>

fun first_occurrences :: "'a list \<Rightarrow> 'a list \<Rightarrow> 'a list" where
  "first_occurrences seen [] = []"
| "first_occurrences seen (x # xs) =
     (if x \<in> set seen then first_occurrences seen xs else x # first_occurrences (x # seen) xs)"

section \<open>Structures and the bonding graph\<close>

type_synonym jimage = "int \<times> int \<times> int"

record site =
  species :: string
  frac_coords :: "rat \<times> rat \<times> rat"

type_synonym Structure = "site list"

text \<open>
  The \<open>MultiDiGraph\<close> held by pymatgen's \<open>StructureGraph\<close>: the nodes, and one entry
  \<open>(from, to, to_jimage)\<close> per stored edge.
\<close>

record multidigraph =
  md_nodes :: "nat list"
  md_edges :: "(nat \<times> nat \<times> jimage) list"

text \<open>
  \<open>StructureGraph.add_edge\<close>: a bond of a site to itself in the same cell is ignored (with
  a warning), and so is an edge that is already stored. (pymatgen also orients each edge;
  the undirected graph built below forgets the orientation.)
\<close>

definition sg_add_edge :: "multidigraph \<Rightarrow> nat \<times> nat \<times> jimage \<Rightarrow> multidigraph" where
  "sg_add_edge md e =
     (case e of (from_index, to_index, to_jimage) \<Rightarrow>
        if to_index = from_index \<and> to_jimage = (0, 0, 0) then md
        else if e \<in> set (md_edges md) then md
        else md\<lparr>md_edges := md_edges md @ [e]\<rparr>)"

text \<open>
  The neighbours the bonding strategy reports for every site in turn
  (\<open>get_nn_info(structure, n)\<close>: site index and periodic image of each neighbour); the
  first exception ends the loop.
\<close>

fun all_nn_info ::
  "(Structure \<Rightarrow> nat \<Rightarrow> exn + (nat \<times> jimage) list) \<Rightarrow> Structure \<Rightarrow> nat list
     \<Rightarrow> exn + (nat \<times> nat \<times> jimage) list" where
  "all_nn_info strategy struct [] = Inr []"
| "all_nn_info strategy struct (n # ns) =
     (case strategy struct n of
        Inl e \<Rightarrow> Inl e
      | Inr nbrs \<Rightarrow>
          (case all_nn_info strategy struct ns of
             Inl e \<Rightarrow> Inl e
           | Inr rest \<Rightarrow> Inr (map (\<lambda>(to_index, to_jimage). (n, to_index, to_jimage)) nbrs @ rest)))"

text \<open>
  \<open>StructureGraph.with_local_env_strategy(struct, cnn)\<close>: one node per site,
  \<open>0 .. N-1\<close>, then an \<open>add_edge\<close> for every reported neighbour.
\<close>

definition with_local_env_strategy ::
  "(Structure \<Rightarrow> nat \<Rightarrow> exn + (nat \<times> jimage) list) \<Rightarrow> Structure \<Rightarrow> exn + multidigraph" where
  "with_local_env_strategy strategy struct =
     (case all_nn_info strategy struct [0..<length struct] of
        Inl e \<Rightarrow> Inl e
      | Inr bonds \<Rightarrow>
          Inr (foldl sg_add_edge \<lparr>md_nodes = [0..<length struct], md_edges = []\<rparr> bonds))"

text \<open>
  A networkx \<open>Graph\<close>: the nodes in insertion order and each undirected edge once, as
  the pair it was first added with. A self-loop \<open>(u, u)\<close> is an edge like any other.
\<close>

record nxgraph =
  g_nodes :: "nat list"
  g_edges :: "(nat \<times> nat) list"

definition has_edge :: "nxgraph \<Rightarrow> nat \<Rightarrow> nat \<Rightarrow> bool" where
  "has_edge g u v \<longleftrightarrow> (u, v) \<in> set (g_edges g) \<or> (v, u) \<in> set (g_edges g)"

definition add_node :: "nxgraph \<Rightarrow> nat \<Rightarrow> nxgraph" where
  "add_node g n = (if n \<in> set (g_nodes g) then g else g\<lparr>g_nodes := g_nodes g @ [n]\<rparr>)"

text \<open>\<open>Graph.add_edge\<close> adds missing end points and keeps one edge per unordered pair.\<close>

definition add_edge :: "nxgraph \<Rightarrow> nat \<times> nat \<Rightarrow> nxgraph" where
  "add_edge g e =
     (case e of (u, v) \<Rightarrow>
        let g' = add_node (add_node g u) v
        in if has_edge g' u v then g' else g'\<lparr>g_edges := g_edges g' @ [(u, v)]\<rparr>)"

text \<open>
  \<open>nx.Graph(sg.graph)\<close>: all nodes of the multigraph, then every stored edge, direction,
  key and attributes dropped. Nothing removes a self-loop.
\<close>

definition nx_Graph :: "multidigraph \<Rightarrow> nxgraph" where
  "nx_Graph md =
     foldl add_edge
       (foldl add_node \<lparr>g_nodes = [], g_edges = []\<rparr> (md_nodes md))
       (map (\<lambda>(u, v, _). (u, v)) (md_edges md))"

text \<open>Lines 25 to 28 of the task: from the parsed structure to the graph.\<close>

definition build_graph ::
  "(Structure \<Rightarrow> nat \<Rightarrow> exn + (nat \<times> jimage) list) \<Rightarrow> Structure \<Rightarrow> exn + nxgraph" where
  "build_graph strategy struct =
     (case with_local_env_strategy strategy struct of
        Inl e \<Rightarrow> Inl e
      | Inr sg \<Rightarrow> Inr (nx_Graph sg))"

text \<open>The unordered pair behind an edge, and the simple-graph conditions of the spec.\<close>

definition unordered :: "nat \<times> nat \<Rightarrow> nat set" where
  "unordered e = {fst e, snd e}"

definition no_duplicate_edges :: "nxgraph \<Rightarrow> bool" where
  "no_duplicate_edges g \<longleftrightarrow> distinct (map unordered (g_edges g))"

definition no_self_loops :: "nxgraph \<Rightarrow> bool" where
  "no_self_loops g \<longleftrightarrow> list_all (\<lambda>e. fst e \<noteq> snd e) (g_edges g)"

text \<open>The strategy answers for every site, with indices of sites of the structure.\<close>

definition strategy_ok ::
  "(Structure \<Rightarrow> nat \<Rightarrow> exn + (nat \<times> jimage) list) \<Rightarrow> Structure \<Rightarrow> bool" where
  "strategy_ok strategy struct \<longleftrightarrow>
     list_all (\<lambda>n. case strategy struct n of
                      Inl e \<Rightarrow> False
                    | Inr nbrs \<Rightarrow> list_all (\<lambda>nb. fst nb < length struct) nbrs)
       [0..<length struct]"

text \<open>
  Site \<open>u\<close> reports site \<open>v\<close> as a neighbour, its own copy in the same cell not
  counted.
\<close>

definition bonded ::
  "(Structure \<Rightarrow> nat \<Rightarrow> exn + (nat \<times> jimage) list) \<Rightarrow> Structure \<Rightarrow> nat \<Rightarrow> nat \<Rightarrow> bool" where
  "bonded strategy struct u v \<longleftrightarrow>
     u < length struct \<and>
     (case strategy struct u of
        Inl e \<Rightarrow> False
      | Inr nbrs \<Rightarrow> list_ex (\<lambda>nb. fst nb = v \<and> (v, snd nb) \<noteq> (u, (0, 0, 0))) nbrs)"

text \<open>
  A cell with a single atom whose only neighbours are its own periodic images, and a
  two-atom cell whose atoms are bonded directly and through the cell boundary.
\<close>

definition one_atom_cell :: Structure where
  "one_atom_cell = [\<lparr>species = ''Cu'', frac_coords = (0, 0, 0)\<rparr>]"

definition image_strategy :: "Structure \<Rightarrow> nat \<Rightarrow> exn + (nat \<times> jimage) list" where
  "image_strategy struct n = Inr [(n, (1, 0, 0)), (n, (-1, 0, 0))]"

definition two_atom_cell :: Structure where
  "two_atom_cell =
     [\<lparr>species = ''Zn'', frac_coords = (0, 0, 0)\<rparr>, \<lparr>species = ''O'', frac_coords = (1 / 2, 0, 0)\<rparr>]"

definition pair_strategy :: "Structure \<Rightarrow> nat \<Rightarrow> exn + (nat \<times> jimage) list" where
  "pair_strategy struct n =
     (if n = 0 then Inr [(1, (0, 0, 0)), (1, (-1, 0, 0))] else Inr [(0, (0, 0, 0)), (0, (1, 0, 0))])"

text \<open>The graphs built from the two cells.\<close>

definition one_bond_graph :: nxgraph where
  "one_bond_graph = \<lparr>g_nodes = [0, 1], g_edges = [(0, 1)]\<rparr>"

definition self_loop_graph :: nxgraph where
  "self_loop_graph = \<lparr>g_nodes = [0], g_edges = [(0, 0)]\<rparr>"


section \<open>Graph statistics\<close>

text \<open>
  The networkx functions that \<open>extract_topo_features\<close> calls, by their documented
  behaviour on an undirected graph.
\<close>

definition neighbors :: "nxgraph \<Rightarrow> nat \<Rightarrow> nat list" where
  "neighbors g u = filter (has_edge g u) (g_nodes g)"

text \<open>\<open>g.degree()\<close>: the number of edge ends at a node, so a self-loop counts twice.\<close>

definition degree :: "nxgraph \<Rightarrow> nat \<Rightarrow> nat" where
  "degree g u =
     length (filter (\<lambda>e. fst e = u) (g_edges g)) + length (filter (\<lambda>e. snd e = u) (g_edges g))"

definition degrees :: "nxgraph \<Rightarrow> nat list" where
  "degrees g = map (degree g) (g_nodes g)"

text \<open>
  Breadth-first search: one round adds the neighbours of everything seen so far. A graph
  with \<open>n\<close> nodes needs at most \<open>n\<close> rounds.
\<close>

definition expand :: "nxgraph \<Rightarrow> nat list \<Rightarrow> nat list" where
  "expand g seen = first_occurrences [] (seen @ concat (map (neighbors g) seen))"

fun plain_bfs :: "nat \<Rightarrow> nxgraph \<Rightarrow> nat list \<Rightarrow> nat list" where
  "plain_bfs 0 g seen = seen"
| "plain_bfs (Suc k) g seen = plain_bfs k g (expand g seen)"

definition node_component :: "nxgraph \<Rightarrow> nat \<Rightarrow> nat list" where
  "node_component g s = plain_bfs (length (g_nodes g)) g [s]"

text \<open>
  \<open>nx.is_connected\<close> raises on the null graph; otherwise it counts what a search from the
  first node reaches.
\<close>

definition is_connected :: "nxgraph \<Rightarrow> exn + bool" where
  "is_connected g =
     (case g_nodes g of
        [] \<Rightarrow> Inl (NetworkXPointlessConcept ''Connectivity is undefined for the null graph.'')
      | s # _ \<Rightarrow> Inr (length (node_component g s) = length (g_nodes g)))"

fun components_from :: "nxgraph \<Rightarrow> nat list \<Rightarrow> nat list \<Rightarrow> nat list list" where
  "components_from g seen [] = []"
| "components_from g seen (v # vs) =
     (if v \<in> set seen then components_from g seen vs
      else let c = node_component g v in c # components_from g (seen @ c) vs)"

definition connected_components :: "nxgraph \<Rightarrow> nat list list" where
  "connected_components g = components_from g [] (g_nodes g)"

text \<open>\<open>max(components, key=len)\<close>: the first component of greatest size.\<close>

fun max_by_len :: "'a list list \<Rightarrow> 'a list" where
  "max_by_len [] = []"
| "max_by_len [c] = c"
| "max_by_len (c # cs) = (let m = max_by_len cs in if length c < length m then m else c)"

text \<open>\<open>nx.density\<close> of an undirected graph.\<close>

definition density :: "nxgraph \<Rightarrow> pyval" where
  "density g =
     (let n = length (g_nodes g); m = length (g_edges g)
      in if m = 0 \<or> n \<le> 1 then IntV 0 else FloatV (2 * (real m / real (n * (n - 1)))))"

text \<open>
  Distances from a source: the number of rounds after which the target has been seen.
  \<open>single_source_shortest_path_length\<close> lists them for the nodes reached.
\<close>

fun sp_length :: "nat \<Rightarrow> nxgraph \<Rightarrow> nat list \<Rightarrow> nat \<Rightarrow> nat" where
  "sp_length 0 g seen t = 0"
| "sp_length (Suc k) g seen t =
     (if t \<in> set seen then 0 else Suc (sp_length k g (expand g seen) t))"

definition single_source_shortest_path_length :: "nxgraph \<Rightarrow> nat \<Rightarrow> (nat \<times> nat) list" where
  "single_source_shortest_path_length g s =
     map (\<lambda>t. (t, sp_length (length (g_nodes g)) g [s] t)) (node_component g s)"

text \<open>\<open>nx.eccentricity\<close> refuses a node that does not reach the whole graph.\<close>

definition eccentricity :: "nxgraph \<Rightarrow> nat \<Rightarrow> exn + nat" where
  "eccentricity g n =
     (let sp = single_source_shortest_path_length g n
      in if length sp \<noteq> length (g_nodes g)
         then Inl (NetworkXError ''Found infinite path length because the graph is not connected'')
         else Inr (foldr max (map snd sp) 0))"

fun eccentricities :: "nxgraph \<Rightarrow> nat list \<Rightarrow> exn + nat list" where
  "eccentricities g [] = Inr []"
| "eccentricities g (n # ns) =
     (case eccentricity g n of
        Inl e \<Rightarrow> Inl e
      | Inr x \<Rightarrow> (case eccentricities g ns of Inl e \<Rightarrow> Inl e | Inr xs \<Rightarrow> Inr (x # xs)))"

text \<open>\<open>nx.diameter\<close> and \<open>nx.radius\<close>: the greatest and the least eccentricity.\<close>

definition diameter :: "nxgraph \<Rightarrow> exn + nat" where
  "diameter g =
     (case eccentricities g (g_nodes g) of
        Inl e \<Rightarrow> Inl e
      | Inr [] \<Rightarrow> Inl (ValueError ''max() arg is an empty sequence'')
      | Inr (x # xs) \<Rightarrow> Inr (foldr max xs x))"

definition radius :: "nxgraph \<Rightarrow> exn + nat" where
  "radius g =
     (case eccentricities g (g_nodes g) of
        Inl e \<Rightarrow> Inl e
      | Inr [] \<Rightarrow> Inl (ValueError ''min() arg is an empty sequence'')
      | Inr (x # xs) \<Rightarrow> Inr (foldr min xs x))"

text \<open>
  \<open>nx.average_shortest_path_length\<close>: the integer 0 for a single node, otherwise the sum
  of all distances over \<open>n (n - 1)\<close>.
\<close>

definition average_shortest_path_length :: "nxgraph \<Rightarrow> exn + pyval" where
  "average_shortest_path_length g =
     (let n = length (g_nodes g)
      in if n = 0
         then Inl (NetworkXPointlessConcept
                ''the null graph has no paths, thus there is no average shortest path length'')
         else if n = 1 then Inr (IntV 0)
         else (case is_connected g of
                 Inl e \<Rightarrow> Inl e
               | Inr c \<Rightarrow>
                   if \<not> c then Inl (NetworkXError ''Graph is not connected.'')
                   else Inr (FloatV
                     (real (sum_list (concat (map
                        (\<lambda>u. map snd (single_source_shortest_path_length g u)) (g_nodes g))))
                      / real (n * (n - 1))))))"

subsection \<open>Degree entropy\<close>

text \<open>\<open>collections.Counter\<close>: the count of every value, keys in order of first occurrence.\<close>

fun counter_add :: "(nat \<times> nat) list \<Rightarrow> nat \<Rightarrow> (nat \<times> nat) list" where
  "counter_add [] k = [(k, 1)]"
| "counter_add ((k', c) # rest) k =
     (if k' = k then (k', c + 1) # rest else (k', c) # counter_add rest k)"

definition Counter :: "nat list \<Rightarrow> (nat \<times> nat) list" where
  "Counter xs = foldl counter_add [] xs"

text \<open>
  The float64 operations behind lines 41 and 42, a double being given by the real number
  it stands for: the quotient of two integers, the product of two doubles, \<open>np.log2\<close> and
  \<open>np.sum\<close>, each with the rounding that numpy and the platform give it, and the content
  of freshly allocated memory. They are taken as given: no rounding rule is assumed.
\<close>

record numpy =
  np_true_divide :: "nat \<Rightarrow> nat \<Rightarrow> real"
  np_multiply :: "real \<Rightarrow> real \<Rightarrow> real"
  np_log2 :: "real \<Rightarrow> real"
  np_sum :: "real list \<Rightarrow> real"
  np_empty :: real

text \<open>
  \<open>np.log2(probs, where=probs>0)\<close> writes the logarithm only where the mask holds; the
  other cells keep whatever the fresh output array held.
\<close>

definition np_log2_where :: "numpy \<Rightarrow> real \<Rightarrow> real" where
  "np_log2_where np p = (if 0 < p then np_log2 np p else np_empty np)"

text \<open>Lines 39 to 41: the relative frequency of every degree that occurs.\<close>

definition degree_probs :: "numpy \<Rightarrow> nxgraph \<Rightarrow> real list" where
  "degree_probs np g =
     (let degree_counts = Counter (degrees g);
          total_nodes = sum_list (map snd degree_counts)
      in map (\<lambda>count. np_true_divide np count total_nodes) (map snd degree_counts))"

text \<open>Line 42.\<close>

definition graph_entropy :: "numpy \<Rightarrow> nxgraph \<Rightarrow> real" where
  "graph_entropy np g =
     - np_sum np (map (\<lambda>p. np_multiply np p (np_log2_where np p)) (degree_probs np g))"

text \<open>
  Operations without rounding. On the sample graphs below every value that occurs
  (1, 0 and their products) is a double, so they agree with float64 there.
\<close>

definition exact_numpy :: numpy where
  "exact_numpy =
     \<lparr>np_true_divide = (\<lambda>a b. real a / real b),
      np_multiply = (\<lambda>x y. x * y),
      np_log2 = (\<lambda>x. log 2 x),
      np_sum = sum_list,
      np_empty = 0\<rparr>"

subsection \<open>Reading the results\<close>

text \<open>A value that Python compares equal to \<open>-1\<close>.\<close>

fun is_minus_one :: "pyval \<Rightarrow> bool" where
  "is_minus_one (IntV i) = (i = - 1)"
| "is_minus_one (FloatV x) = (x = - 1)"
| "is_minus_one v = False"

text \<open>A set of nodes that no edge leaves, and the step relation of the search.\<close>

definition closed_under_neighbors :: "nxgraph \<Rightarrow> nat set \<Rightarrow> bool" where
  "closed_under_neighbors g S \<longleftrightarrow> (\<forall>u \<in> S. set (neighbors g u) \<subseteq> S)"

definition steps :: "nxgraph \<Rightarrow> (nat \<times> nat) set" where
  "steps g = {(u, v). v \<in> set (neighbors g u)}"


definition single_node_graph :: nxgraph where
  "single_node_graph = \<lparr>g_nodes = [0], g_edges = []\<rparr>"

definition three_isolated_nodes :: nxgraph where
  "three_isolated_nodes = \<lparr>g_nodes = [0, 1, 2], g_edges = []\<rparr>"


section \<open>The task \<open>extract_topo_features\<close>\<close>

text \<open>
  What a task takes from outside the repository: the file system, the structure parser,
  the bonding strategy (\<open>CrystalNN\<close>), three networkx statistics that no property below
  looks into, and the float64 operations of numpy.
\<close>

record world =
  path_exists :: "string \<Rightarrow> bool"
  from_file :: "string \<Rightarrow> exn + Structure"
  get_nn_info :: "Structure \<Rightarrow> nat \<Rightarrow> exn + (nat \<times> jimage) list"
  clustering_mean :: "nxgraph \<Rightarrow> exn + pyval"
  degree_assortativity_coefficient :: "nxgraph \<Rightarrow> exn + pyval"
  transitivity :: "nxgraph \<Rightarrow> exn + pyval"
  numpy_ops :: numpy

text \<open>\<open>os.path.join\<close> of two components, POSIX.\<close>

definition path_join :: "string \<Rightarrow> string \<Rightarrow> string" where
  "path_join a b =
     (if b \<noteq> [] \<and> hd b = CHR ''/'' then b
      else if a = [] \<or> last a = CHR ''/'' then a @ b
      else a @ ''/'' @ b)"

text \<open>Lines 58 to 66: the features that need a connected graph.\<close>

definition connectivity_features :: "nxgraph \<Rightarrow> bool \<Rightarrow> exn + pyrecord" where
  "connectivity_features g is_conn =
     (if is_conn then
        (case diameter g of
           Inl e \<Rightarrow> Inl e
         | Inr d \<Rightarrow>
             (case radius g of
                Inl e \<Rightarrow> Inl e
              | Inr r \<Rightarrow>
                  (case average_shortest_path_length g of
                     Inl e \<Rightarrow> Inl e
                   | Inr a \<Rightarrow>
                       Inr [(''graph_diameter'', IntV (int d)),
                            (''graph_radius'', IntV (int r)),
                            (''avg_shortest_path_length'', a)])))
      else
        Inr [(''graph_diameter'', IntV (- 1)),
             (''graph_radius'', IntV (- 1)),
             (''avg_shortest_path_length'', IntV (- 1))])"

text \<open>
  Lines 30 to 68: everything computed from the graph, in the order in which the calls
  can raise.
\<close>

definition topo_features :: "world \<Rightarrow> string \<Rightarrow> nxgraph \<Rightarrow> exn + pyrecord" where
  "topo_features w mof_id g =
     (case is_connected g of
        Inl e \<Rightarrow> Inl e
      | Inr is_conn \<Rightarrow>
          let degs = degrees g;
              components = connected_components g;
              largest_cc = max_by_len components;
              largest_cc_fraction =
                (if 0 < length (g_nodes g)
                 then FloatV (real (length largest_cc) / real (length (g_nodes g)))
                 else IntV 0);
              entropy = graph_entropy (numpy_ops w) g
          in (case clustering_mean w g of
                Inl e \<Rightarrow> Inl e
              | Inr cc \<Rightarrow>
                  (case degree_assortativity_coefficient w g of
                     Inl e \<Rightarrow> Inl e
                   | Inr da \<Rightarrow>
                       (case transitivity w g of
                          Inl e \<Rightarrow> Inl e
                        | Inr tr \<Rightarrow>
                            (case connectivity_features g is_conn of
                               Inl e \<Rightarrow> Inl e
                             | Inr cf \<Rightarrow>
                                 Inr ([(''MOF_ID'', StrV mof_id),
                                       (''avg_node_connectivity'',
                                          if degs \<noteq> []
                                          then FloatV (real (sum_list degs) / real (length degs))
                                          else IntV 0),
                                       (''graph_density'', density g),
                                       (''num_connected_components'', IntV (int (length components))),
                                       (''largest_cc_fraction'', largest_cc_fraction),
                                       (''is_connected'', IntV (if is_conn then 1 else 0)),
                                       (''clustering_coefficient_mean'', cc),
                                       (''degree_assortativity'', da),
                                       (''graph_transitivity'', tr),
                                       (''graph_entropy'', FloatV entropy)] @ cf))))))"

text \<open>The body of the \<open>try\<close>, lines 25 to 68.\<close>

definition topo_try :: "world \<Rightarrow> string \<Rightarrow> string \<Rightarrow> exn + pyrecord" where
  "topo_try w cif_path mof_id =
     (case from_file w cif_path of
        Inl e \<Rightarrow> Inl e
      | Inr struct \<Rightarrow>
          (case build_graph (get_nn_info w) struct of
             Inl e \<Rightarrow> Inl e
           | Inr g \<Rightarrow> topo_features w mof_id g))"

type_synonym task = "string \<times> string \<times> string"

text \<open>
  The task: the record it returns and the lines it logs. The \<open>except\<close> branch logs one
  message and returns the identifier alone.
\<close>

definition extract_topo_features :: "world \<Rightarrow> task \<Rightarrow> pyrecord \<times> string list" where
  "extract_topo_features w t =
     (case t of (cif_folder, cif_file, mof_id) \<Rightarrow>
        (case topo_try w (path_join cif_folder cif_file) mof_id of
           Inr result \<Rightarrow> (result, [])
         | Inl e \<Rightarrow>
             ([(''MOF_ID'', StrV mof_id)],
              [''Error processing '' @ mof_id @ '': '' @ exn_message e])))"

section \<open>The orchestrator \<open>extract_topological_features\<close>\<close>

definition cif_folder :: string where
  "cif_folder = path_join ''MOFxDB_Project'' ''cifs''"

text \<open>
  Line 99, for the \<open>MOF_ID\<close> column. \<open>pd_read_csv\<close> stands for what pandas makes of the
  cells of the file: a cell is \<open>None\<close> when pandas reads it as missing (an empty cell,
  \<open>NA\<close>, \<open>nan\<close>, \<open>null\<close> and the like), and otherwise holds the text that \<open>astype(str)\<close>
  prints for the value pandas has inferred. That text need not be the text in the file:
  in a column of integers \<open>007\<close> is the number 7 and prints as \<open>7\<close>.
\<close>

definition read_mof_id_column ::
  "(string list \<Rightarrow> string option list) \<Rightarrow> string list option \<Rightarrow> string option list option" where
  "read_mof_id_column pd_read_csv subset_csv = map_option pd_read_csv subset_csv"

text \<open>
  Line 100, on the column as pandas holds it (see above for its cells). The order in which
  Python walks the set is not fixed; the tasks are then collected in completion order
  anyway, so one permutation below stands for both.
\<close>

definition mof_ids_to_process :: "string option list \<Rightarrow> string list" where
  "mof_ids_to_process column = remdups (List.map_filter (\<lambda>cell. cell) column)"

text \<open>Lines 102 to 106.\<close>

definition make_tasks :: "world \<Rightarrow> string list \<Rightarrow> task list" where
  "make_tasks w ids =
     map (\<lambda>mof_id. (cif_folder, mof_id @ ''.cif'', mof_id))
       (filter (\<lambda>mof_id. path_exists w (path_join cif_folder (mof_id @ ''.cif''))) ids)"

text \<open>The file looked up for an identifier, and the task submitted for it.\<close>

definition task_path :: "string \<Rightarrow> string" where
  "task_path mof_id = path_join cif_folder (mof_id @ ''.cif'')"

definition task_of :: "string \<Rightarrow> task" where
  "task_of mof_id = (cif_folder, mof_id @ ''.cif'', mof_id)"

text \<open>\<open>as_completed\<close> hands every submitted task back once, in some order.\<close>

definition completes_all :: "('a list \<Rightarrow> 'a list) \<Rightarrow> 'a list \<Rightarrow> bool" where
  "completes_all as_completed ts \<longleftrightarrow> mset (as_completed ts) = mset ts"

text \<open>\<open>pd.DataFrame(results)\<close>: the columns in order of first appearance, a missing cell
  where a record lacks a column.\<close>

record dataframe =
  columns :: "string list"
  rows :: "pyval option list list"

definition DataFrame :: "pyrecord list \<Rightarrow> dataframe" where
  "DataFrame records =
     (let cols = first_occurrences [] (concat (map (map fst) records))
      in \<lparr>columns = cols, rows = map (\<lambda>r. map (map_of r) cols) records\<rparr>)"

text \<open>
  A run, from line 100 on: the records collected, the table written (none when line 122
  returns first) and the error log as the handler of line 96 leaves it when the tasks log
  through it. The handler opens the file for appending. \<open>subset_csv\<close> is the \<open>MOF_ID\<close>
  column as pandas has read it, \<open>None\<close> when the file does not exist.
\<close>

record run =
  results :: "pyrecord list"
  output_csv :: "dataframe option"
  error_log :: "string list"

definition extract_topological_features ::
  "world \<Rightarrow> (task list \<Rightarrow> task list) \<Rightarrow> string option list option \<Rightarrow> string list \<Rightarrow> run option" where
  "extract_topological_features w as_completed subset_csv old_log =
     (case subset_csv of
        None \<Rightarrow> None
      | Some column \<Rightarrow>
          let tasks = make_tasks w (mof_ids_to_process column);
              outcomes = map (extract_topo_features w) (as_completed tasks);
              results = filter (\<lambda>result. result \<noteq> []) (map fst outcomes)
          in Some \<lparr>results = results,
                   output_csv = (if results = [] then None else Some (DataFrame results)),
                   error_log = old_log @ concat (map snd outcomes)\<rparr>)"

text \<open>
  How the pool starts its worker processes. A forked worker inherits the handler of line
  96 and logs into the file. A worker that is spawned, or forked from the fork server,
  imports the module without running line 96: its message goes to standard error and the
  file receives nothing.
\<close>

datatype start_method = Fork | Spawn | Forkserver

definition error_log_file :: "start_method \<Rightarrow> string list \<Rightarrow> run \<Rightarrow> string list" where
  "error_log_file method old_log out = (if method = Fork then error_log out else old_log)"

text \<open>Reading the collected records.\<close>

definition record_id :: "pyrecord \<Rightarrow> pyval option" where
  "record_id r = map_of r ''MOF_ID''"

definition is_failure :: "pyrecord \<Rightarrow> bool" where
  "is_failure r \<longleftrightarrow> map fst r = [''MOF_ID'']"

definition is_metrics :: "pyrecord \<Rightarrow> bool" where
  "is_metrics r \<longleftrightarrow> 1 < length r"

definition outcomes_for :: "string \<Rightarrow> pyrecord list \<Rightarrow> pyrecord list" where
  "outcomes_for mof_id rs = filter (\<lambda>r. record_id r = Some (StrV mof_id)) rs"

datatype classification = Success | Failure | NoOutcome

definition classify :: "pyrecord list \<Rightarrow> string \<Rightarrow> classification" where
  "classify rs mof_id =
     (case outcomes_for mof_id rs of
        [] \<Rightarrow> NoOutcome
      | r # _ \<Rightarrow> if is_failure r then Failure else Success)"


section \<open>The chemical stage\<close>

definition endswith :: "string \<Rightarrow> string \<Rightarrow> bool" where
  "endswith s suffix \<longleftrightarrow>
     length suffix \<le> length s \<and> drop (length s - length suffix) s = suffix"

definition startswith :: "string \<Rightarrow> string \<Rightarrow> bool" where
  "startswith s prefix \<longleftrightarrow> take (length prefix) s = prefix"

text \<open>\<open>s.replace(old, new)\<close> for a non-empty \<open>old\<close>: every occurrence, left to right.\<close>

function str_replace :: "string \<Rightarrow> string \<Rightarrow> string \<Rightarrow> string" where
  "str_replace old new [] = []"
| "str_replace old new (c # cs) =
     (if old \<noteq> [] \<and> take (length old) (c # cs) = old
      then new @ str_replace old new (drop (length old) (c # cs))
      else c # str_replace old new cs)"
  by pat_completeness auto
termination
  by (relation "measure (\<lambda>(old, new, s). length s)") (auto simp: neq_Nil_conv)

definition HMOF_LIMIT :: nat where
  "HMOF_LIMIT = 15000"

definition is_core_file :: "string \<Rightarrow> bool" where
  "is_core_file f \<longleftrightarrow> endswith f ''.cif'' \<and> \<not> startswith f ''hMOF-''"

definition is_hmof_file :: "string \<Rightarrow> bool" where
  "is_hmof_file f \<longleftrightarrow> endswith f ''.cif'' \<and> startswith f ''hMOF-''"

text \<open>Lines 107 to 110, on the listing of the folder.\<close>

definition cif_files_to_process :: "string list \<Rightarrow> string list" where
  "cif_files_to_process all_files =
     (let core_files = filter is_core_file all_files;
          hmof_files = take HMOF_LIMIT (filter is_hmof_file all_files)
      in core_files @ hmof_files)"

text \<open>
  \<open>process_cif\<close>. The columns after \<open>MOF_ID\<close> come from pymatgen; \<open>chem_columns\<close> stands
  for lines 33 to 78, an exception included.
\<close>

definition file_mof_id :: "string \<Rightarrow> string" where
  "file_mof_id filename = str_replace ''.cif'' '''' filename"

definition process_cif ::
  "(string \<Rightarrow> exn + pyrecord) \<Rightarrow> string \<times> string \<Rightarrow> pyrecord option \<times> (string \<times> string) option" where
  "process_cif chem_columns t =
     (case t of (folder, filename) \<Rightarrow>
        (case chem_columns (path_join folder filename) of
           Inr cols \<Rightarrow> (Some ((''MOF_ID'', StrV (file_mof_id filename)) # cols), None)
         | Inl e \<Rightarrow> (None, Some (filename, exn_message e))))"

text \<open>
  \<open>extract_chemical_features\<close>: the listing is \<open>None\<close> when the folder is missing. The
  error log is opened with mode \<open>"w"\<close>, and only when a record and an error both exist.
\<close>

record chem_run =
  chem_results :: "pyrecord list"
  chem_output_csv :: "dataframe option"
  chem_error_log :: "string list"

definition extract_chemical_features ::
  "(string \<Rightarrow> exn + pyrecord) \<Rightarrow> ((string \<times> string) list \<Rightarrow> (string \<times> string) list)
     \<Rightarrow> string list option \<Rightarrow> string list \<Rightarrow> chem_run option" where
  "extract_chemical_features chem_columns as_completed listing old_log =
     (case listing of
        None \<Rightarrow> None
      | Some all_files \<Rightarrow>
          let tasks = map (\<lambda>fname. (cif_folder, fname)) (cif_files_to_process all_files);
              outcomes = map (process_cif chem_columns) (as_completed tasks);
              results = filter (\<lambda>r. r \<noteq> []) (List.map_filter fst outcomes);
              errors = List.map_filter snd outcomes
          in Some \<lparr>chem_results = results,
                   chem_output_csv = (if results = [] then None else Some (DataFrame results)),
                   chem_error_log =
                     (if results \<noteq> [] \<and> errors \<noteq> []
                      then map (\<lambda>(fname, reason). fname @ '': '' @ reason) errors
                      else old_log)\<rparr>)"




section \<open>Sample inputs\<close>

text \<open>
  A folder in which \<open>a.cif\<close> holds the two-atom cell, \<open>c.cif\<close> cannot be parsed and no
  other file exists; the three statistics taken from networkx have the values of the
  one-edge graph.
\<close>

definition sample_world :: world where
  "sample_world =
     \<lparr>path_exists = (\<lambda>p. p = ''MOFxDB_Project/cifs/a.cif'' \<or> p = ''MOFxDB_Project/cifs/c.cif''),
      from_file = (\<lambda>p. if p = ''MOFxDB_Project/cifs/a.cif'' then Inr two_atom_cell
                        else Inl (StructureError ''Invalid CIF file with no structures!'')),
      get_nn_info = pair_strategy,
      clustering_mean = (\<lambda>g. Inr (FloatV 0)),
      degree_assortativity_coefficient = (\<lambda>g. Inr NaN),
      transitivity = (\<lambda>g. Inr (IntV 0)),
      numpy_ops = exact_numpy\<rparr>"

text \<open>The same folder holding the single file \<open>007.cif\<close> instead.\<close>

definition sample_world_007 :: world where
  "sample_world_007 = sample_world\<lparr>path_exists := (\<lambda>p. p = ''MOFxDB_Project/cifs/007.cif'')\<rparr>"

text \<open>
  A reader of the \<open>MOF_ID\<close> cells that does what pandas does on the tables used below: the
  markers of a missing value are dropped, identifiers with letters are kept as they are,
  and the column with the single cell \<open>007\<close> is read as the integer 7.
\<close>

definition sample_pd_read_csv :: "string list \<Rightarrow> string option list" where
  "sample_pd_read_csv cells =
     (if cells = [''007''] then [Some ''7'']
      else map (\<lambda>cell. if cell \<in> set ['''', ''NA'', ''nan'', ''null''] then None else Some cell)
             cells)"

text \<open>The chemical columns in that folder.\<close>

definition sample_chem_columns :: "string \<Rightarrow> exn + pyrecord" where
  "sample_chem_columns p =
     (if p = ''MOFxDB_Project/cifs/a.cif'' then Inr [(''formula'', StrV ''ZnO'')]
      else Inl (StructureError ''Invalid CIF file with no structures!''))"






definition submission_order :: "'a list \<Rightarrow> 'a list" where
  "submission_order ts = ts"

definition reverse_order :: "'a list \<Rightarrow> 'a list" where
  "reverse_order ts = rev ts"


section \<open>The graph builder\<close>

lemma add_node_edges: "g_edges (add_node g n) = g_edges g"
  by (simp add: add_node_def)

lemma add_node_nodes_set: "set (g_nodes (add_node g n)) = insert n (set (g_nodes g))"
  by (auto simp: add_node_def)

lemma add_node_present: "n \<in> set (g_nodes g) \<Longrightarrow> add_node g n = g"
  by (simp add: add_node_def)

lemma foldl_add_node_nodes:
  "distinct (g_nodes g @ ns) \<Longrightarrow> g_nodes (foldl add_node g ns) = g_nodes g @ ns"
  by (induction ns arbitrary: g) (auto simp: add_node_def)

lemma foldl_add_node_edges: "g_edges (foldl add_node g ns) = g_edges g"
  by (induction ns arbitrary: g) (auto simp: add_node_edges)

lemma add_edge_nodes:
  "u \<in> set (g_nodes g) \<Longrightarrow> v \<in> set (g_nodes g) \<Longrightarrow> g_nodes (add_edge g (u, v)) = g_nodes g"
  by (simp add: add_edge_def add_node_present Let_def)

lemma has_edge_add_edge:
  "has_edge (add_edge g (a, b)) u v \<longleftrightarrow> has_edge g u v \<or> (u = a \<and> v = b) \<or> (u = b \<and> v = a)"
  by (auto simp: add_edge_def has_edge_def add_node_edges Let_def)

lemma unordered_eq_iff: "unordered (a, b) = unordered (c, d) \<longleftrightarrow> (a = c \<and> b = d) \<or> (a = d \<and> b = c)"
  by (auto simp: unordered_def doubleton_eq_iff)

lemma unordered_in_edges:
  "unordered (a, b) \<in> unordered ` set (g_edges g) \<longleftrightarrow> has_edge g a b"
proof -
  have "unordered (a, b) \<in> unordered ` set (g_edges g) \<longleftrightarrow>
        (\<exists>c d. (c, d) \<in> set (g_edges g) \<and> unordered (a, b) = unordered (c, d))"
    by (auto simp: image_iff)
  also have "\<dots> \<longleftrightarrow> has_edge g a b"
    by (auto simp: has_edge_def unordered_eq_iff)
  finally show ?thesis .
qed

lemma add_edge_no_duplicate:
  "no_duplicate_edges g \<Longrightarrow> no_duplicate_edges (add_edge g e)"
proof (cases e)
  case (Pair a b)
  assume d: "no_duplicate_edges g"
  let ?g' = "add_node (add_node g a) b"
  have e': "g_edges ?g' = g_edges g" by (simp add: add_node_edges)
  have h: "has_edge ?g' a b = has_edge g a b" by (simp add: has_edge_def e')
  show ?thesis
  proof (cases "has_edge g a b")
    case True
    then show ?thesis using d Pair by (simp add: add_edge_def Let_def h no_duplicate_edges_def e')
  next
    case False
    then have "unordered (a, b) \<notin> unordered ` set (g_edges g)" by (simp add: unordered_in_edges)
    then show ?thesis using d Pair False
      by (simp add: add_edge_def Let_def h no_duplicate_edges_def e')
  qed
qed

lemma foldl_add_edge_no_duplicate:
  "no_duplicate_edges g \<Longrightarrow> no_duplicate_edges (foldl add_edge g es)"
  by (induction es arbitrary: g) (auto simp: add_edge_no_duplicate)

lemma foldl_add_edge_nodes:
  "\<forall>e \<in> set es. fst e \<in> set (g_nodes g) \<and> snd e \<in> set (g_nodes g) \<Longrightarrow>
   g_nodes (foldl add_edge g es) = g_nodes g"
proof (induction es arbitrary: g)
  case Nil
  then show ?case by simp
next
  case (Cons e es)
  obtain a b where e: "e = (a, b)" by (cases e)
  have n: "g_nodes (add_edge g e) = g_nodes g" using Cons.prems e by (simp add: add_edge_nodes)
  show ?case using Cons.IH [of "add_edge g e"] Cons.prems n by simp
qed

lemma has_edge_foldl_add_edge:
  "has_edge (foldl add_edge g es) u v \<longleftrightarrow> has_edge g u v \<or> (u, v) \<in> set es \<or> (v, u) \<in> set es"
proof (induction es arbitrary: g)
  case Nil
  then show ?case by simp
next
  case (Cons e es)
  obtain a b where e: "e = (a, b)" by (cases e)
  show ?case by (auto simp: Cons.IH e has_edge_add_edge)
qed

lemma sg_add_edge_nodes: "md_nodes (sg_add_edge md e) = md_nodes md"
  by (cases e) (simp add: sg_add_edge_def)

lemma sg_add_edge_edges:
  "set (md_edges (sg_add_edge md e)) =
     set (md_edges md) \<union> (if fst (snd e) = fst e \<and> snd (snd e) = (0, 0, 0) then {} else {e})"
  by (cases e) (auto simp: sg_add_edge_def)

lemma foldl_sg_add_edge_nodes: "md_nodes (foldl sg_add_edge md es) = md_nodes md"
  by (induction es arbitrary: md) (auto simp: sg_add_edge_nodes)

lemma foldl_sg_add_edge_edges:
  "set (md_edges (foldl sg_add_edge md es)) =
     set (md_edges md) \<union> {e \<in> set es. \<not> (fst (snd e) = fst e \<and> snd (snd e) = (0, 0, 0))}"
  by (induction es arbitrary: md) (auto simp: sg_add_edge_edges)


lemma all_nn_info_ok:
  "list_all (\<lambda>n. case strategy struct n of Inl e \<Rightarrow> False | Inr nbrs \<Rightarrow> P nbrs) ns \<Longrightarrow>
   \<exists>bonds. all_nn_info strategy struct ns = Inr bonds \<and>
     set bonds = {(n, w, img). n \<in> set ns \<and>
                    (\<exists>nbrs. strategy struct n = Inr nbrs \<and> (w, img) \<in> set nbrs)}"
proof (induction ns)
  case Nil
  then show ?case by simp
next
  case (Cons n ns)
  from Cons.prems obtain nbrs where n: "strategy struct n = Inr nbrs"
    by (auto split: sum.splits)
  from Cons obtain rest where r: "all_nn_info strategy struct ns = Inr rest"
    and s: "set rest = {(n, w, img). n \<in> set ns \<and>
                    (\<exists>nbrs. strategy struct n = Inr nbrs \<and> (w, img) \<in> set nbrs)}"
    by auto
  show ?case using n r s by (auto simp: image_iff)
qed

lemma strategy_ok_index:
  "strategy_ok strategy struct \<Longrightarrow> n < length struct \<Longrightarrow> strategy struct n = Inr nbrs \<Longrightarrow>
   (w, img) \<in> set nbrs \<Longrightarrow> w < length struct"
  by (fastforce simp: strategy_ok_def list_all_iff split: sum.splits)

lemma bonded_iff:
  "strategy_ok strategy struct \<Longrightarrow>
   bonded strategy struct u v \<longleftrightarrow>
     u < length struct \<and> (\<exists>nbrs img. strategy struct u = Inr nbrs \<and> (v, img) \<in> set nbrs \<and>
        \<not> (v = u \<and> img = (0, 0, 0)))"
proof -
  have ex: "\<And>xs Q. (\<exists>nb\<in>set xs. fst nb = v \<and> Q (snd nb)) \<longleftrightarrow> (\<exists>i. (v, i) \<in> set xs \<and> Q i)"
    by force
  show ?thesis
  proof (cases "strategy struct u")
    case (Inl e)
    then show ?thesis by (simp add: bonded_def)
  next
    case (Inr nbrs)
    have "list_ex (\<lambda>nb. fst nb = v \<and> (v, snd nb) \<noteq> (u, (0, 0, 0))) nbrs \<longleftrightarrow>
          (\<exists>nb\<in>set nbrs. fst nb = v \<and> \<not> (v = u \<and> snd nb = (0, 0, 0)))"
      by (simp add: list_ex_iff)
    also have "\<dots> \<longleftrightarrow> (\<exists>img. (v, img) \<in> set nbrs \<and> \<not> (v = u \<and> img = (0, 0, 0)))"
      by (rule ex)
    finally show ?thesis using Inr by (simp add: bonded_def)
  qed
qed

text \<open>
  Claim C4, as the code has it. When the bonding strategy answers for every atom of a
  structure with \<open>N\<close> atoms, with indices of atoms of the structure, the graph built has
  exactly the nodes \<open>0 .. N-1\<close>, stores no edge twice (bonds reported from both ends or
  through several periodic images are one edge), and joins \<open>u\<close> and \<open>v\<close> exactly when one
  of them reports the other. A bond of an atom to its own periodic image stays in the graph
  as a self-loop: nothing in the task removes it.
\<close>

theorem build_graph_simple:
  assumes ok: "strategy_ok strategy struct"
  shows "\<exists>g. build_graph strategy struct = Inr g \<and>
             g_nodes g = [0..<length struct] \<and>
             no_duplicate_edges g \<and>
             (\<forall>u v. has_edge g u v = (bonded strategy struct u v \<or> bonded strategy struct v u))"
proof -
  let ?N = "length struct"
  from ok obtain bonds where b: "all_nn_info strategy struct [0..<?N] = Inr bonds"
    and sb: "set bonds = {(n, w, img). n \<in> set [0..<?N] \<and>
                    (\<exists>nbrs. strategy struct n = Inr nbrs \<and> (w, img) \<in> set nbrs)}"
    using all_nn_info_ok [where P = "list_all (\<lambda>nb. fst nb < length struct)" and ns = "[0..<?N]"
        and strategy = strategy and struct = struct]
    unfolding strategy_ok_def by blast
  define md where "md = foldl sg_add_edge \<lparr>md_nodes = [0..<?N], md_edges = []\<rparr> bonds"
  define g0 where "g0 = foldl add_node \<lparr>g_nodes = [], g_edges = []\<rparr> (md_nodes md)"
  define es where "es = map (\<lambda>(u, v, _). (u, v)) (md_edges md)"
  define g where "g = foldl add_edge g0 es"
  have bg: "build_graph strategy struct = Inr g"
    by (simp add: build_graph_def with_local_env_strategy_def b nx_Graph_def g_def g0_def es_def
        md_def)
  have mdn: "md_nodes md = [0..<?N]" by (simp add: md_def foldl_sg_add_edge_nodes)
  have mde: "set (md_edges md) =
      {e \<in> set bonds. \<not> (fst (snd e) = fst e \<and> snd (snd e) = (0, 0, 0))}"
    by (simp add: md_def foldl_sg_add_edge_edges)
  have g0n: "g_nodes g0 = [0..<?N]" by (simp add: g0_def mdn foldl_add_node_nodes)
  have g0e: "g_edges g0 = []" by (simp add: g0_def foldl_add_node_edges)
  have inb: "\<And>n w img. (n, w, img) \<in> set bonds \<Longrightarrow> n < ?N \<and> w < ?N"
    using sb strategy_ok_index [OF ok] by auto
  have ends: "\<forall>e \<in> set es. fst e \<in> set (g_nodes g0) \<and> snd e \<in> set (g_nodes g0)"
    using inb by (auto simp: g0n mde es_def)
  have nodes: "g_nodes g = [0..<?N]"
    using foldl_add_edge_nodes [OF ends] g0n by (simp add: g_def)
  have nd: "no_duplicate_edges g"
    unfolding g_def by (rule foldl_add_edge_no_duplicate) (simp add: no_duplicate_edges_def g0e)
  have ines: "(u, v) \<in> set es \<longleftrightarrow> bonded strategy struct u v" for u v
  proof -
    have "(u, v) \<in> set es \<longleftrightarrow> (\<exists>img. (u, v, img) \<in> set (md_edges md))"
      unfolding es_def by (force simp: image_iff)
    also have "\<dots> \<longleftrightarrow> (\<exists>img. (u, v, img) \<in> set bonds \<and> \<not> (v = u \<and> img = (0, 0, 0)))"
      by (simp add: mde)
    also have "\<dots> \<longleftrightarrow> bonded strategy struct u v"
      unfolding bonded_iff [OF ok] sb by auto
    finally show ?thesis .
  qed
  have "has_edge g0 u v = False" for u v by (simp add: has_edge_def g0e)
  then have he: "\<forall>u v. has_edge g u v = (bonded strategy struct u v \<or> bonded strategy struct v u)"
    by (simp add: g_def has_edge_foldl_add_edge ines)
  show ?thesis using bg nodes nd he by blast
qed

lemma build_pair: "build_graph pair_strategy two_atom_cell = Inr one_bond_graph"
  by (simp add: build_graph_def with_local_env_strategy_def pair_strategy_def two_atom_cell_def
      upt_rec sg_add_edge_def nx_Graph_def add_node_def add_edge_def has_edge_def
      one_bond_graph_def)

theorem build_graph_simple_witness:
  "strategy_ok pair_strategy two_atom_cell \<and>
   build_graph pair_strategy two_atom_cell = Inr one_bond_graph \<and>
   (\<exists>g. build_graph pair_strategy two_atom_cell = Inr g \<and>
        g_nodes g = [0..<length two_atom_cell] \<and>
        no_duplicate_edges g \<and>
        (\<forall>u v. has_edge g u v =
           (bonded pair_strategy two_atom_cell u v \<or> bonded pair_strategy two_atom_cell v u)))"
proof -
  have ok: "strategy_ok pair_strategy two_atom_cell"
    by (simp add: strategy_ok_def pair_strategy_def two_atom_cell_def upt_rec)
  show ?thesis using ok build_graph_simple [OF ok] build_pair by blast
qed

text \<open>
  Claim C4 as stated fails: the one-atom cell bonded to its own images gives a graph with
  the self-loop \<open>(0, 0)\<close>.
\<close>

theorem build_graph_self_loop_counterexample:
  "strategy_ok image_strategy one_atom_cell \<and>
   build_graph image_strategy one_atom_cell = Inr self_loop_graph \<and>
   \<not> no_self_loops self_loop_graph"
  by (simp add: strategy_ok_def build_graph_def with_local_env_strategy_def image_strategy_def
      one_atom_cell_def upt_rec sg_add_edge_def nx_Graph_def add_node_def add_edge_def
      has_edge_def no_self_loops_def self_loop_graph_def)


section \<open>The task on the sample inputs\<close>


lemma one_bond_fields:
  "g_nodes one_bond_graph = [0, Suc 0]" "g_edges one_bond_graph = [(0, Suc 0)]"
  by (simp_all add: one_bond_graph_def)

lemma one_bond_expand:
  "expand one_bond_graph [0] = [0, Suc 0]"
  "expand one_bond_graph [Suc 0] = [Suc 0, 0]"
  "expand one_bond_graph [0, Suc 0] = [0, Suc 0]"
  "expand one_bond_graph [Suc 0, 0] = [Suc 0, 0]"
  by (simp_all add: expand_def neighbors_def has_edge_def one_bond_fields)

lemma pair_component:
  "node_component one_bond_graph 0 = [0, Suc 0]"
  "node_component one_bond_graph (Suc 0) = [Suc 0, 0]"
  by (simp_all add: node_component_def one_bond_fields one_bond_expand numeral_2_eq_2)

lemma pair_connected: "is_connected one_bond_graph = Inr True"
  by (simp add: is_connected_def pair_component one_bond_fields)

lemma pair_sssp:
  "single_source_shortest_path_length one_bond_graph 0 = [(0, 0), (Suc 0, Suc 0)]"
  "single_source_shortest_path_length one_bond_graph (Suc 0) = [(Suc 0, 0), (0, Suc 0)]"
  by (simp_all add: single_source_shortest_path_length_def pair_component numeral_2_eq_2
      one_bond_fields one_bond_expand)

lemma pair_connectivity:
  "connectivity_features one_bond_graph True =
     Inr [(''graph_diameter'', IntV 1), (''graph_radius'', IntV 1),
          (''avg_shortest_path_length'', FloatV 1)]"
  by (simp add: connectivity_features_def diameter_def radius_def eccentricity_def pair_sssp
      average_shortest_path_length_def pair_connected one_bond_fields)

lemma pair_degrees: "degrees one_bond_graph = [Suc 0, Suc 0]"
  by (simp add: degrees_def degree_def one_bond_fields)

lemma pair_entropy: "graph_entropy exact_numpy one_bond_graph = 0"
  by (simp add: graph_entropy_def degree_probs_def pair_degrees Counter_def
      np_log2_where_def exact_numpy_def)

lemma pair_components:
  "connected_components one_bond_graph = [[0, Suc 0]]"
  by (simp add: connected_components_def pair_component one_bond_fields)

lemma sample_a:
  "topo_try sample_world (task_path ''a'') ''a'' =
     Inr [(''MOF_ID'', StrV ''a''),
          (''avg_node_connectivity'', FloatV 1),
          (''graph_density'', FloatV 1),
          (''num_connected_components'', IntV 1),
          (''largest_cc_fraction'', FloatV 1),
          (''is_connected'', IntV 1),
          (''clustering_coefficient_mean'', FloatV 0),
          (''degree_assortativity'', NaN),
          (''graph_transitivity'', IntV 0),
          (''graph_entropy'', FloatV 0),
          (''graph_diameter'', IntV 1),
          (''graph_radius'', IntV 1),
          (''avg_shortest_path_length'', FloatV 1)]"
  by (simp add: topo_try_def sample_world_def task_path_def cif_folder_def path_join_def
      build_pair topo_features_def pair_connected pair_connectivity pair_entropy pair_components
      pair_degrees density_def one_bond_fields)

lemma sample_c:
  "topo_try sample_world (task_path ''c'') ''c'' =
     Inl (StructureError ''Invalid CIF file with no structures!'')"
  by (simp add: topo_try_def sample_world_def task_path_def cif_folder_def path_join_def)


section \<open>The orchestrator\<close>


lemma connectivity_features_keys:
  "connectivity_features g c = Inr cf \<Longrightarrow>
   map fst cf = [''graph_diameter'', ''graph_radius'', ''avg_shortest_path_length'']"
  by (auto simp: connectivity_features_def split: if_splits sum.splits)

lemma topo_features_shape:
  "topo_features w mof_id g = Inr r \<Longrightarrow>
   \<exists>rest. r = (''MOF_ID'', StrV mof_id) # rest \<and> length rest = 12"
  unfolding topo_features_def Let_def
  by (auto split: sum.splits dest!: connectivity_features_keys [THEN arg_cong [where f = length]])

lemma topo_try_shape:
  "topo_try w p mof_id = Inr r \<Longrightarrow> \<exists>rest. r = (''MOF_ID'', StrV mof_id) # rest \<and> length rest = 12"
  unfolding topo_try_def by (auto split: sum.splits dest: topo_features_shape)

lemma extract_cases:
  "extract_topo_features w (task_of i) =
     (case topo_try w (task_path i) i of
        Inr r \<Rightarrow> (r, [])
      | Inl e \<Rightarrow> ([(''MOF_ID'', StrV i)], [''Error processing '' @ i @ '': '' @ exn_message e]))"
  by (simp add: extract_topo_features_def task_of_def task_path_def)

lemma extract_record_id: "record_id (fst (extract_topo_features w (task_of i))) = Some (StrV i)"
  by (auto simp: extract_cases record_id_def split: sum.splits dest: topo_try_shape)

lemma extract_nonempty: "fst (extract_topo_features w (task_of i)) \<noteq> []"
  by (auto simp: extract_cases split: sum.splits dest: topo_try_shape)

lemma make_tasks_eq:
  "make_tasks w ids = map task_of (filter (\<lambda>i. path_exists w (task_path i)) ids)"
  by (simp add: make_tasks_def task_of_def task_path_def)

lemma inj_task_of: "inj task_of"
  by (simp add: inj_def task_of_def)

lemma distinct_ids: "distinct (mof_ids_to_process column)"
  by (simp add: mof_ids_to_process_def)

lemma set_ids: "set (mof_ids_to_process column) = {i. Some i \<in> set column}"
  by (force simp: mof_ids_to_process_def List.map_filter_def image_iff)

text \<open>A list that is a permutation of a list without duplicates, filtered.\<close>

lemma filter_eq_distinct:
  "distinct ys \<Longrightarrow> filter (\<lambda>x. x = a) ys = (if a \<in> set ys then [a] else [])"
  by (induction ys) auto

lemma filter_perm_distinct:
  assumes "mset ys = mset xs" "distinct xs"
  shows "filter (\<lambda>x. x = a) ys = (if a \<in> set xs then [a] else [])"
proof -
  have d: "distinct ys" using assms by (metis mset_eq_imp_distinct_iff)
  have s: "set ys = set xs" using assms by (metis mset_eq_setD)
  show ?thesis using filter_eq_distinct [OF d, of a] s by simp
qed

lemma distinct_tasks: "distinct (make_tasks w (mof_ids_to_process column))"
  by (simp add: make_tasks_eq distinct_map distinct_ids inj_task_of [THEN inj_on_subset])

lemma task_in_tasks:
  "task_of i \<in> set (make_tasks w (mof_ids_to_process column)) \<longleftrightarrow>
     Some i \<in> set column \<and> path_exists w (task_path i)"
  using inj_task_of by (auto simp: make_tasks_eq set_ids inj_def)

lemma tasks_are_task_of:
  "t \<in> set (make_tasks w ids) \<Longrightarrow> \<exists>i. t = task_of i"
  by (auto simp: make_tasks_eq)

lemma outcomes_for_map:
  "\<forall>t \<in> set ys. \<exists>j. t = task_of j \<Longrightarrow>
   outcomes_for i (filter (\<lambda>result. result \<noteq> []) (map fst (map (extract_topo_features w) ys))) =
   map (\<lambda>t. fst (extract_topo_features w t)) (filter (\<lambda>t. t = task_of i) ys)"
proof (induction ys)
  case Nil
  then show ?case by (simp add: outcomes_for_def)
next
  case (Cons t ts)
  then obtain j where j: "t = task_of j" by auto
  have eq: "(task_of j = task_of i) = (j = i)" using inj_task_of by (auto simp: inj_def)
  have ih: "outcomes_for i (filter (\<lambda>result. result \<noteq> []) (map fst (map (extract_topo_features w) ts))) =
   map (\<lambda>t. fst (extract_topo_features w t)) (filter (\<lambda>t. t = task_of i) ts)"
    using Cons by simp
  show ?case using ih
    by (simp add: j outcomes_for_def extract_nonempty extract_record_id eq)
qed

text \<open>The records collected for one identifier, whatever the completion order.\<close>

lemma outcomes_for_collected:
  assumes c: "completes_all as_completed (make_tasks w (mof_ids_to_process column))"
  shows "outcomes_for i
           (filter (\<lambda>result. result \<noteq> [])
              (map fst (map (extract_topo_features w)
                 (as_completed (make_tasks w (mof_ids_to_process column)))))) =
         (if Some i \<in> set column \<and> path_exists w (task_path i)
          then [fst (extract_topo_features w (task_of i))] else [])"
proof -
  let ?ts = "make_tasks w (mof_ids_to_process column)"
  let ?ys = "as_completed ?ts"
  have m: "mset ?ys = mset ?ts" using c by (simp add: completes_all_def)
  have sub: "set ?ys = set ?ts" using m by (metis mset_eq_setD)
  have all: "\<forall>t \<in> set ?ys. \<exists>j. t = task_of j" using sub tasks_are_task_of by blast
  have f: "filter (\<lambda>t. t = task_of i) ?ys = (if task_of i \<in> set ?ts then [task_of i] else [])"
    by (rule filter_perm_distinct [OF m distinct_tasks])
  show ?thesis
    unfolding outcomes_for_map [OF all] f by (simp add: task_in_tasks)
qed


lemma run_Some:
  "extract_topological_features w as_completed (Some column) old_log =
     Some \<lparr>results = filter (\<lambda>result. result \<noteq> [])
              (map fst (map (extract_topo_features w)
                 (as_completed (make_tasks w (mof_ids_to_process column))))),
           output_csv =
             (if filter (\<lambda>result. result \<noteq> [])
                  (map fst (map (extract_topo_features w)
                     (as_completed (make_tasks w (mof_ids_to_process column))))) = []
              then None
              else Some (DataFrame (filter (\<lambda>result. result \<noteq> [])
                  (map fst (map (extract_topo_features w)
                     (as_completed (make_tasks w (mof_ids_to_process column)))))))),
           error_log = old_log @ concat (map snd (map (extract_topo_features w)
                 (as_completed (make_tasks w (mof_ids_to_process column)))))\<rparr>"
  by (simp add: extract_topological_features_def Let_def)

lemma run_outcomes:
  assumes c: "completes_all as_completed (make_tasks w (mof_ids_to_process column))"
  shows "\<exists>out. extract_topological_features w as_completed (Some column) old_log = Some out \<and>
           outcomes_for i (results out) =
             (if Some i \<in> set column \<and> path_exists w (task_path i)
              then [fst (extract_topo_features w (task_of i))] else [])"
  unfolding run_Some using outcomes_for_collected [OF c] by simp

text \<open>
  Claim C1, as the code has it. The request set is what line 100 makes of the \<open>MOF_ID\<close>
  column as pandas has read it, not the text of the table. When every submitted task
  completes, the run collects exactly one record for an identifier of that set (read once
  or several times) whose structure file exists, and no record for any other identifier:
  line 105 drops an identifier whose file is missing before a task is made for it.
\<close>

theorem one_outcome_per_id_with_file:
  assumes "completes_all as_completed (make_tasks w (mof_ids_to_process (pd_read_csv table)))"
  shows "\<exists>out. extract_topological_features w as_completed
                  (read_mof_id_column pd_read_csv (Some table)) old_log = Some out \<and>
           length (outcomes_for mof_id (results out)) =
             (if Some mof_id \<in> set (pd_read_csv table) \<and> path_exists w (task_path mof_id)
              then 1 else 0)"
  using run_outcomes [OF assms, of old_log mof_id] by (auto simp: read_mof_id_column_def)

lemma completes_all_reverse: "completes_all reverse_order ts"
  by (simp add: completes_all_def reverse_order_def)

lemma completes_all_submission: "completes_all submission_order ts"
  by (simp add: completes_all_def submission_order_def)

lemma sample_paths:
  "path_exists sample_world (task_path ''a'')"
  "\<not> path_exists sample_world (task_path ''b'')"
  "path_exists sample_world (task_path ''c'')"
  by (simp_all add: sample_world_def task_path_def cif_folder_def path_join_def)

lemma sample_read:
  "sample_pd_read_csv [''a'', ''c'', ''NA'', ''a''] = [Some ''a'', Some ''c'', None, Some ''a'']"
  "sample_pd_read_csv [''a'', ''b''] = [Some ''a'', Some ''b'']"
  "sample_pd_read_csv [''007''] = [Some ''7'']"
  by (simp_all add: sample_pd_read_csv_def)

theorem one_outcome_per_id_with_file_witness:
  "completes_all reverse_order
     (make_tasks sample_world
        (mof_ids_to_process (sample_pd_read_csv [''a'', ''c'', ''NA'', ''a'']))) \<and>
   (\<exists>out. extract_topological_features sample_world reverse_order
             (read_mof_id_column sample_pd_read_csv (Some [''a'', ''c'', ''NA'', ''a''])) []
             = Some out \<and>
          length (outcomes_for ''a'' (results out)) = 1)"
  using one_outcome_per_id_with_file [OF completes_all_reverse,
      of sample_world sample_pd_read_csv "[''a'', ''c'', ''NA'', ''a'']" "[]" "''a''"]
  by (simp add: completes_all_reverse sample_paths sample_read)

text \<open>
  Claim C1 as stated fails. In the table with the cells \<open>a\<close> and \<open>b\<close>, \<open>b\<close> is listed, its
  file is missing, and the run collects no outcome for it. In the table with the single
  cell \<open>007\<close>, whose file \<open>007.cif\<close> exists, the identifier requested is \<open>7\<close>, and the run
  collects no outcome for \<open>007\<close>.
\<close>

theorem missing_file_no_outcome_counterexample:
  "''b'' \<in> set [''a'', ''b''] \<and>
   map_option (outcomes_for ''b'' \<circ> results)
     (extract_topological_features sample_world submission_order
        (read_mof_id_column sample_pd_read_csv (Some [''a'', ''b''])) [])
   = Some [] \<and>
   ''007'' \<in> set [''007''] \<and>
   path_exists sample_world_007 (task_path ''007'') \<and>
   map_option (outcomes_for ''007'' \<circ> results)
     (extract_topological_features sample_world_007 submission_order
        (read_mof_id_column sample_pd_read_csv (Some [''007''])) [])
   = Some []"
proof -
  have p: "path_exists sample_world_007 (task_path ''007'')"
    by (simp add: sample_world_007_def task_path_def cif_folder_def path_join_def)
  show ?thesis
    using run_outcomes [OF completes_all_submission,
        of sample_world "[Some ''a'', Some ''b'']" "[]" "''b''"]
      run_outcomes [OF completes_all_submission,
        of sample_world_007 "[Some ''7'']" "[]" "''007''"]
    by (auto simp: sample_paths sample_read read_mof_id_column_def p)
qed

text \<open>
  Claim C7. Two runs on the same table and the same files, each completing every task in
  an order of its own, classify every identifier alike (success, failure or no outcome);
  they even collect the same records, up to order.
\<close>

theorem classification_is_deterministic:
  assumes "completes_all first_run (make_tasks w (mof_ids_to_process column))"
      and "completes_all second_run (make_tasks w (mof_ids_to_process column))"
  shows "\<exists>out1 out2.
           extract_topological_features w first_run (Some column) log1 = Some out1 \<and>
           extract_topological_features w second_run (Some column) log2 = Some out2 \<and>
           classify (results out1) mof_id = classify (results out2) mof_id \<and>
           mset (results out1) = mset (results out2)"
proof -
  let ?ts = "make_tasks w (mof_ids_to_process column)"
  from run_outcomes [OF assms(1), of log1 mof_id] obtain out1 where
    1: "extract_topological_features w first_run (Some column) log1 = Some out1"
    and o1: "outcomes_for mof_id (results out1) =
             (if Some mof_id \<in> set column \<and> path_exists w (task_path mof_id)
              then [fst (extract_topo_features w (task_of mof_id))] else [])" by blast
  from run_outcomes [OF assms(2), of log2 mof_id] obtain out2 where
    2: "extract_topological_features w second_run (Some column) log2 = Some out2"
    and o2: "outcomes_for mof_id (results out2) =
             (if Some mof_id \<in> set column \<and> path_exists w (task_path mof_id)
              then [fst (extract_topo_features w (task_of mof_id))] else [])" by blast
  have c: "classify (results out1) mof_id = classify (results out2) mof_id"
    by (simp add: classify_def o1 o2)
  have "mset (first_run ?ts) = mset (second_run ?ts)"
    using assms by (simp add: completes_all_def)
  then have "mset (filter (\<lambda>result. result \<noteq> []) (map fst (map (extract_topo_features w) (first_run ?ts))))
      = mset (filter (\<lambda>result. result \<noteq> []) (map fst (map (extract_topo_features w) (second_run ?ts))))"
    by (simp only: mset_filter mset_map)
  then have m: "mset (results out1) = mset (results out2)"
    using 1 2 unfolding run_Some by auto
  show ?thesis using 1 2 c m by blast
qed

theorem classification_is_deterministic_witness:
  "completes_all submission_order
     (make_tasks sample_world (mof_ids_to_process [Some ''a'', Some ''c''])) \<and>
   completes_all reverse_order
     (make_tasks sample_world (mof_ids_to_process [Some ''a'', Some ''c''])) \<and>
   (\<exists>out1 out2.
      extract_topological_features sample_world submission_order
        (Some [Some ''a'', Some ''c'']) [] = Some out1 \<and>
      extract_topological_features sample_world reverse_order
        (Some [Some ''a'', Some ''c'']) [] = Some out2 \<and>
      classify (results out1) ''c'' = classify (results out2) ''c'' \<and>
      mset (results out1) = mset (results out2))"
  using classification_is_deterministic [OF completes_all_submission completes_all_reverse,
      of sample_world "[Some ''a'', Some ''c'']" "[]" "[]" "''c''"]
  by (simp add: completes_all_submission completes_all_reverse)


section \<open>The output table\<close>


lemma set_first_occurrences: "set (first_occurrences seen xs) = set xs - set seen"
  by (induction seen xs rule: first_occurrences.induct) auto

lemma distinct_first_occurrences: "distinct (first_occurrences seen xs)"
  by (induction seen xs rule: first_occurrences.induct) (auto simp: set_first_occurrences)

lemma DataFrame_columns: "set (columns (DataFrame rs)) = (\<Union>r \<in> set rs. fst ` set r)"
  by (simp add: DataFrame_def Let_def set_first_occurrences)

lemma DataFrame_rows: "rows (DataFrame rs) = map (\<lambda>r. map (map_of r) (columns (DataFrame rs))) rs"
  by (simp add: DataFrame_def Let_def)

lemma outcome_in_results: "outcomes_for i rs = [r] \<Longrightarrow> r \<in> set rs"
proof -
  assume "outcomes_for i rs = [r]"
  then have "r \<in> set (filter (\<lambda>r. record_id r = Some (StrV i)) rs)"
    by (simp add: outcomes_for_def)
  then show ?thesis by simp
qed

lemma extract_failure:
  "topo_try w (task_path i) i = Inl e \<Longrightarrow>
   extract_topo_features w (task_of i) =
     ([(''MOF_ID'', StrV i)], [''Error processing '' @ i @ '': '' @ exn_message e])"
  by (simp add: extract_cases)

lemma extract_success:
  "topo_try w (task_path i) i = Inr r \<Longrightarrow> extract_topo_features w (task_of i) = (r, [])"
  by (simp add: extract_cases)

text \<open>
  Claim C9. A task that fails returns the record with the single key \<open>MOF_ID\<close>; when
  every submitted task completes, the run keeps that record, writes a table, and the
  table has a row for the failed identifier whose every column but \<open>MOF_ID\<close> is a missing
  value.
\<close>

theorem failed_id_is_a_row_of_missing_values:
  assumes c: "completes_all as_completed (make_tasks w (mof_ids_to_process column))"
    and listed: "Some mof_id \<in> set column"
    and exists: "path_exists w (task_path mof_id)"
    and fails: "topo_try w (task_path mof_id) mof_id = Inl e"
  shows "\<exists>out df.
           extract_topological_features w as_completed (Some column) old_log = Some out \<and>
           fst (extract_topo_features w (task_of mof_id)) = [(''MOF_ID'', StrV mof_id)] \<and>
           outcomes_for mof_id (results out) = [[(''MOF_ID'', StrV mof_id)]] \<and>
           output_csv out = Some df \<and>
           ''MOF_ID'' \<in> set (columns df) \<and>
           map (\<lambda>col. if col = ''MOF_ID'' then Some (StrV mof_id) else None) (columns df)
             \<in> set (rows df)"
proof -
  let ?r = "[(''MOF_ID'', StrV mof_id)]"
  from run_outcomes [OF c, of old_log mof_id] obtain out where
    run: "extract_topological_features w as_completed (Some column) old_log = Some out"
    and o: "outcomes_for mof_id (results out) = [?r]"
    using listed exists by (auto simp: extract_failure [OF fails])
  have mem: "?r \<in> set (results out)" by (rule outcome_in_results [OF o])
  then have ne: "results out \<noteq> []" by auto
  have csv: "output_csv out = Some (DataFrame (results out))"
    using run ne unfolding run_Some by auto
  have col: "''MOF_ID'' \<in> set (columns (DataFrame (results out)))"
    unfolding DataFrame_columns using mem by force
  have "map (map_of ?r) (columns (DataFrame (results out)))
          \<in> (\<lambda>r. map (map_of r) (columns (DataFrame (results out)))) ` set (results out)"
    using mem by (rule imageI)
  then have "map (map_of ?r) (columns (DataFrame (results out))) \<in> set (rows (DataFrame (results out)))"
    by (simp add: DataFrame_rows [of "results out"])
  moreover have "map_of ?r = (\<lambda>col. if col = ''MOF_ID'' then Some (StrV mof_id) else None)"
    by (rule ext) simp
  ultimately have row: "map (\<lambda>col. if col = ''MOF_ID'' then Some (StrV mof_id) else None)
      (columns (DataFrame (results out))) \<in> set (rows (DataFrame (results out)))"
    by simp
  show ?thesis using run o csv col row extract_failure [OF fails] by auto
qed

theorem failed_id_is_a_row_of_missing_values_witness:
  "completes_all reverse_order (make_tasks sample_world (mof_ids_to_process [Some ''a'', Some ''c''])) \<and>
   Some ''c'' \<in> set [Some ''a'', Some ''c''] \<and>
   path_exists sample_world (task_path ''c'') \<and>
   topo_try sample_world (task_path ''c'') ''c'' =
     Inl (StructureError ''Invalid CIF file with no structures!'') \<and>
   (\<exists>out df.
      extract_topological_features sample_world reverse_order (Some [Some ''a'', Some ''c'']) []
        = Some out \<and>
      fst (extract_topo_features sample_world (task_of ''c'')) = [(''MOF_ID'', StrV ''c'')] \<and>
      outcomes_for ''c'' (results out) = [[(''MOF_ID'', StrV ''c'')]] \<and>
      output_csv out = Some df \<and>
      ''MOF_ID'' \<in> set (columns df) \<and>
      map (\<lambda>col. if col = ''MOF_ID'' then Some (StrV ''c'') else None) (columns df)
        \<in> set (rows df))"
proof -
  have l: "Some ''c'' \<in> set [Some ''a'', Some ''c'']" by simp
  show ?thesis
    using failed_id_is_a_row_of_missing_values
      [OF completes_all_reverse l sample_paths(3) sample_c, where old_log = "[]"]
    by (simp add: completes_all_reverse sample_paths sample_c)
qed


section \<open>Fault isolation\<close>


lemma cif_folder_eq: "cif_folder = ''MOFxDB_Project/cifs''"
  by (simp add: cif_folder_def path_join_def)

lemma task_path_inj: "task_path i = task_path j \<Longrightarrow> i = j"
  by (auto simp: task_path_def cif_folder_eq path_join_def split: if_splits)

lemma topo_features_other_file: "topo_features (w\<lparr>from_file := f\<rparr>) i g = topo_features w i g"
  by (simp add: topo_features_def cong: sum.case_cong)

lemma topo_try_other_file:
  "p \<noteq> q \<Longrightarrow> topo_try (w\<lparr>from_file := (from_file w)(q := x)\<rparr>) p i = topo_try w p i"
  by (simp add: topo_try_def topo_features_other_file split: sum.splits)

lemma make_tasks_other_file:
  "make_tasks (w\<lparr>from_file := f\<rparr>) ids = make_tasks w ids"
  by (simp add: make_tasks_def)

lemma extract_other_file:
  "i \<noteq> bad \<Longrightarrow>
   extract_topo_features (w\<lparr>from_file := (from_file w)(task_path bad := x)\<rparr>) (task_of i) =
   extract_topo_features w (task_of i)"
proof -
  assume "i \<noteq> bad"
  then have "task_path i \<noteq> task_path bad" using task_path_inj by blast
  then show ?thesis by (simp add: extract_cases topo_try_other_file)
qed

lemma topo_try_corrupt: "from_file w p = Inl e \<Longrightarrow> topo_try w p i = Inl e"
  by (simp add: topo_try_def)

lemma is_metrics_extract:
  "is_metrics (fst (extract_topo_features w (task_of i))) \<longleftrightarrow> \<not> raises (topo_try w (task_path i) i)"
  by (auto simp: extract_cases is_metrics_def raises_def split: sum.splits dest: topo_try_shape)

lemma is_failure_extract:
  "is_failure (fst (extract_topo_features w (task_of i))) \<longleftrightarrow> raises (topo_try w (task_path i) i)"
  by (auto simp: extract_cases is_failure_def raises_def split: sum.splits dest: topo_try_shape)

lemma ids_of_distinct: "distinct ids \<Longrightarrow> mof_ids_to_process (map Some ids) = ids"
  by (simp add: mof_ids_to_process_def List.map_filter_def comp_def filter_map)

lemma concat_single:
  "distinct ys \<Longrightarrow> a \<in> set ys \<Longrightarrow> \<forall>t \<in> set ys. t \<noteq> a \<longrightarrow> h t = [] \<Longrightarrow>
   concat (map h ys) = h a"
proof (induction ys)
  case Nil
  then show ?case by simp
next
  case (Cons y ys)
  show ?case
  proof (cases "y = a")
    case True
    then have "\<forall>t \<in> set ys. h t = []" using Cons.prems by auto
    then have "concat (map h ys) = []" by simp
    then show ?thesis using True by simp
  next
    case False
    then show ?thesis using Cons by auto
  qed
qed


lemma filter_nonempty_extract:
  "\<forall>t \<in> set ys. \<exists>j. t = task_of j \<Longrightarrow>
   filter (\<lambda>result. result \<noteq> []) (map fst (map (extract_topo_features w) ys)) =
   map (\<lambda>t. fst (extract_topo_features w t)) ys"
  by (induction ys) (auto simp: extract_nonempty)

text \<open>
  Claim C6, as the code has it. Among \<open>N\<close> distinct requested identifiers whose files all
  exist, let exactly one file be corrupt (the parser raises on it) while the tasks of the
  others raise nothing. Then the run collects \<open>N - 1\<close> metrics records and exactly one
  failure record, which carries the corrupt identifier alone; the exception is caught in
  the task and leaves one line in the log; and the record of any other identifier is the
  one it has in a run, in any completion order, where the corrupt file is replaced by
  whatever else. (A missing file is another matter: no task is made for it.)
\<close>

theorem one_corrupt_file_is_isolated:
  assumes d: "distinct ids"
    and c: "completes_all as_completed (make_tasks w (mof_ids_to_process (map Some ids)))"
    and bad: "bad \<in> set ids"
    and present: "list_all (\<lambda>i. path_exists w (task_path i)) ids"
    and corrupt: "from_file w (task_path bad) = Inl e"
    and clean: "list_all (\<lambda>i. i = bad \<or> \<not> raises (topo_try w (task_path i) i)) ids"
    and c': "completes_all other_order (make_tasks w (mof_ids_to_process (map Some ids)))"
    and other: "other \<noteq> bad"
  shows "\<exists>out.
      extract_topological_features w as_completed (Some (map Some ids)) old_log = Some out \<and>
      length (filter is_metrics (results out)) = length ids - 1 \<and>
      filter is_failure (results out) = [[(''MOF_ID'', StrV bad)]] \<and>
      error_log out = old_log @ [''Error processing '' @ bad @ '': '' @ exn_message e] \<and>
      map_option (outcomes_for other \<circ> results)
        (extract_topological_features
           (w\<lparr>from_file := (from_file w)(task_path bad := replacement)\<rparr>)
           other_order (Some (map Some ids)) other_log)
        = Some (outcomes_for other (results out))"
proof -
  let ?W = "extract_topo_features w"
  let ?w' = "w\<lparr>from_file := (from_file w)(task_path bad := replacement)\<rparr>"
  let ?col = "map Some ids"
  have ids: "mof_ids_to_process ?col = ids" by (rule ids_of_distinct [OF d])
  have ts: "make_tasks w ids = map task_of ids"
    using present by (simp add: make_tasks_eq list_all_iff)
  define ys where "ys = as_completed (map task_of ids)"
  have m: "mset ys = mset (map task_of ids)"
    using c by (simp add: completes_all_def ids ts ys_def)
  have dts: "distinct (map task_of ids)"
    using d by (simp add: distinct_map inj_task_of [THEN inj_on_subset])
  have dys: "distinct ys" using m dts by (metis mset_eq_imp_distinct_iff)
  have sys: "set ys = task_of ` set ids" using m by (metis mset_eq_setD set_map)
  have lys: "length ys = length ids" using m by (metis length_map size_mset)
  have all: "\<forall>t \<in> set ys. \<exists>j. t = task_of j" using sys by auto
  have fb: "topo_try w (task_path bad) bad = Inl e" by (rule topo_try_corrupt [OF corrupt])
  have wb: "?W (task_of bad) =
      ([(''MOF_ID'', StrV bad)], [''Error processing '' @ bad @ '': '' @ exn_message e])"
    by (rule extract_failure [OF fb])
  have good: "\<And>i. i \<in> set ids \<Longrightarrow> i \<noteq> bad \<Longrightarrow> \<not> raises (topo_try w (task_path i) i)"
    using clean by (auto simp: list_all_iff)
  have fail_iff: "\<And>t. t \<in> set ys \<Longrightarrow> is_failure (fst (?W t)) = (t = task_of bad)"
  proof -
    fix t assume "t \<in> set ys"
    then obtain i where i: "t = task_of i" "i \<in> set ids" using sys by auto
    have eq: "(task_of i = task_of bad) = (i = bad)" using inj_task_of by (auto simp: inj_def)
    show "is_failure (fst (?W t)) = (t = task_of bad)"
      using good [OF i(2)] fb by (auto simp: i(1) is_failure_extract eq raises_def)
  qed
  have met_iff: "\<And>t. t \<in> set ys \<Longrightarrow> is_metrics (fst (?W t)) = (t \<noteq> task_of bad)"
  proof -
    fix t assume "t \<in> set ys"
    then obtain i where i: "t = task_of i" "i \<in> set ids" using sys by auto
    have eq: "(task_of i = task_of bad) = (i = bad)" using inj_task_of by (auto simp: inj_def)
    show "is_metrics (fst (?W t)) = (t \<noteq> task_of bad)"
      using good [OF i(2)] fb by (auto simp: i(1) is_metrics_extract eq raises_def)
  qed
  obtain out where run: "extract_topological_features w as_completed (Some ?col) old_log = Some out"
    and res: "results out = map (\<lambda>t. fst (?W t)) ys"
    and log: "error_log out = old_log @ concat (map (\<lambda>t. snd (?W t)) ys)"
    unfolding run_Some ids ts ys_def [symmetric]
    using filter_nonempty_extract [OF all, of w] by (simp add: comp_def)
  have one: "filter (\<lambda>t. t = task_of bad) ys = [task_of bad]"
    using filter_eq_distinct [OF dys, of "task_of bad"] sys bad by simp
  have f: "filter is_failure (results out) = [[(''MOF_ID'', StrV bad)]]"
  proof -
    have "filter is_failure (results out) = map (\<lambda>t. fst (?W t)) (filter (\<lambda>t. is_failure (fst (?W t))) ys)"
      by (simp add: res filter_map comp_def)
    also have "filter (\<lambda>t. is_failure (fst (?W t))) ys = filter (\<lambda>t. t = task_of bad) ys"
      by (rule filter_cong [OF refl]) (simp add: fail_iff)
    finally show ?thesis by (simp add: one wb)
  qed
  have g: "length (filter is_metrics (results out)) = length ids - 1"
  proof -
    have "filter is_metrics (results out) = map (\<lambda>t. fst (?W t)) (filter (\<lambda>t. is_metrics (fst (?W t))) ys)"
      by (simp add: res filter_map comp_def)
    also have "filter (\<lambda>t. is_metrics (fst (?W t))) ys = filter (\<lambda>t. t \<noteq> task_of bad) ys"
      by (rule filter_cong [OF refl]) (simp add: met_iff)
    finally have "length (filter is_metrics (results out)) = length (filter (\<lambda>t. t \<noteq> task_of bad) ys)"
      by simp
    moreover have "length (filter (\<lambda>t. t = task_of bad) ys) + length (filter (\<lambda>t. t \<noteq> task_of bad) ys)
        = length ys"
      using sum_length_filter_compl [of "\<lambda>t. t = task_of bad" ys] by simp
    ultimately show ?thesis using one lys by simp
  qed
  have quiet: "\<forall>t \<in> set ys. t \<noteq> task_of bad \<longrightarrow> snd (?W t) = []"
  proof (intro ballI impI)
    fix t assume t: "t \<in> set ys" "t \<noteq> task_of bad"
    then obtain i where i: "t = task_of i" "i \<in> set ids" using sys by auto
    have "i \<noteq> bad" using t(2) i(1) by auto
    from good [OF i(2) this] show "snd (?W t) = []"
      by (auto simp: i(1) extract_cases raises_def split: sum.splits)
  qed
  have l: "error_log out = old_log @ [''Error processing '' @ bad @ '': '' @ exn_message e]"
    unfolding log using concat_single [OF dys _ quiet] sys bad by (simp add: wb)
  have c1: "completes_all other_order (make_tasks ?w' (mof_ids_to_process ?col))"
    using c' by (simp add: make_tasks_other_file)
  have pe: "path_exists ?w' = path_exists w" by simp
  from run_outcomes [OF c1, of other_log other] obtain out' where
    run': "extract_topological_features ?w' other_order (Some ?col) other_log = Some out'"
    and o': "outcomes_for other (results out') =
       (if Some other \<in> set ?col \<and> path_exists w (task_path other)
        then [fst (extract_topo_features ?w' (task_of other))] else [])"
    unfolding pe by blast
  from run_outcomes [OF c, of old_log other] run have
    o: "outcomes_for other (results out) =
       (if Some other \<in> set ?col \<and> path_exists w (task_path other)
        then [fst (?W (task_of other))] else [])"
    by auto
  have same: "outcomes_for other (results out') = outcomes_for other (results out)"
    unfolding o o' by (simp add: extract_other_file [OF other])
  show ?thesis using run g f l run' same by simp
qed


lemma sample_c_file:
  "from_file sample_world (task_path ''c'') = Inl (StructureError ''Invalid CIF file with no structures!'')"
  by (simp add: sample_world_def task_path_def cif_folder_def path_join_def)

lemma sample_a_clean: "\<not> raises (topo_try sample_world (task_path ''a'') ''a'')"
  by (simp add: sample_a raises_def)

theorem one_corrupt_file_is_isolated_witness:
  "distinct [''a'', ''c''] \<and>
   completes_all reverse_order
     (make_tasks sample_world (mof_ids_to_process (map Some [''a'', ''c'']))) \<and>
   ''c'' \<in> set [''a'', ''c''] \<and>
   list_all (\<lambda>i. path_exists sample_world (task_path i)) [''a'', ''c''] \<and>
   from_file sample_world (task_path ''c'') =
     Inl (StructureError ''Invalid CIF file with no structures!'') \<and>
   list_all (\<lambda>i. i = ''c'' \<or> \<not> raises (topo_try sample_world (task_path i) i)) [''a'', ''c''] \<and>
   completes_all submission_order
     (make_tasks sample_world (mof_ids_to_process (map Some [''a'', ''c'']))) \<and>
   ''a'' \<noteq> ''c'' \<and>
   (\<exists>out.
      extract_topological_features sample_world reverse_order (Some (map Some [''a'', ''c''])) []
        = Some out \<and>
      length (filter is_metrics (results out)) = length [''a'', ''c''] - 1 \<and>
      filter is_failure (results out) = [[(''MOF_ID'', StrV ''c'')]] \<and>
      error_log out =
        [] @ [''Error processing '' @ ''c'' @ '': '' @
              exn_message (StructureError ''Invalid CIF file with no structures!'')] \<and>
      map_option (outcomes_for ''a'' \<circ> results)
        (extract_topological_features
           (sample_world\<lparr>from_file := (from_file sample_world)(task_path ''c'' := Inr two_atom_cell)\<rparr>)
           submission_order (Some (map Some [''a'', ''c''])) [])
        = Some (outcomes_for ''a'' (results out)))"
proof -
  have d: "distinct [''a'', ''c'']" by simp
  have b: "''c'' \<in> set [''a'', ''c'']" by simp
  have p: "list_all (\<lambda>i. path_exists sample_world (task_path i)) [''a'', ''c'']"
    by (simp add: sample_paths)
  have cl: "list_all (\<lambda>i. i = ''c'' \<or> \<not> raises (topo_try sample_world (task_path i) i)) [''a'', ''c'']"
    by (simp add: sample_a_clean)
  have o: "''a'' \<noteq> ''c''" by simp
  from one_corrupt_file_is_isolated
    [OF d completes_all_reverse b p sample_c_file cl completes_all_submission o,
      where old_log = "[]" and other_log = "[]" and replacement = "Inr two_atom_cell"]
  show ?thesis
    using d b p cl o sample_c_file completes_all_reverse completes_all_submission by blast
qed

text \<open>
  Claim C6 as stated fails for a missing file: of the two requested identifiers \<open>a\<close>
  processes cleanly and the file of \<open>b\<close> is missing; the run collects one metrics record
  and no failure record.
\<close>

theorem missing_file_leaves_no_failure_record_counterexample:
  "distinct [''a'', ''b''] \<and>
   \<not> path_exists sample_world (task_path ''b'') \<and>
   \<not> raises (topo_try sample_world (task_path ''a'') ''a'') \<and>
   map_option (length \<circ> filter is_metrics \<circ> results)
     (extract_topological_features sample_world submission_order (Some (map Some [''a'', ''b''])) [])
     = Some 1 \<and>
   map_option (filter is_failure \<circ> results)
     (extract_topological_features sample_world submission_order (Some (map Some [''a'', ''b''])) [])
     = Some []"
proof -
  have ids: "mof_ids_to_process (map Some [''a'', ''b'']) = [''a'', ''b'']"
    by (rule ids_of_distinct) simp
  have ts: "make_tasks sample_world [''a'', ''b''] = [task_of ''a'']"
    by (simp add: make_tasks_eq sample_paths)
  show ?thesis
    unfolding run_Some ids ts
    by (simp add: sample_a_clean sample_paths submission_order_def extract_success [OF sample_a]
        is_metrics_def is_failure_def)
qed


section \<open>The error logs\<close>


lemma mset_concat_map_perm:
  "mset ys = mset xs \<Longrightarrow> mset (concat (map f ys)) = mset (concat (map f xs))"
proof -
  assume m: "mset ys = mset xs"
  have "\<And>zs. mset (concat (map f zs)) = sum_mset (image_mset (\<lambda>z. mset (f z)) (mset zs))"
    by (induct_tac zs) auto
  then show ?thesis using m by simp
qed

lemma mset_map_filter_perm:
  "mset ys = mset xs \<Longrightarrow> mset (List.map_filter g ys) = mset (List.map_filter g xs)"
proof -
  assume m: "mset ys = mset xs"
  have "\<And>zs. mset (List.map_filter g zs) =
      image_mset (\<lambda>z. the (g z)) (filter_mset (\<lambda>z. g z \<noteq> None) (mset zs))"
    by (simp add: List.map_filter_def comp_def)
  then show ?thesis using m by simp
qed

lemma make_tasks_map:
  "map f (make_tasks w ids) = map (\<lambda>i. f (task_of i)) (filter (\<lambda>i. path_exists w (task_path i)) ids)"
  by (simp add: make_tasks_eq comp_def)

lemma topo_log:
  assumes c: "completes_all as_completed (make_tasks w (mof_ids_to_process column))"
  shows "\<exists>out.
            extract_topological_features w as_completed (Some column) old_log = Some out \<and>
            take (length old_log) (error_log out) = old_log \<and>
            mset (drop (length old_log) (error_log out)) =
              mset (concat (map (\<lambda>i. snd (extract_topo_features w (task_of i)))
                     (filter (\<lambda>i. path_exists w (task_path i)) (mof_ids_to_process column))))"
proof -
  let ?ts = "make_tasks w (mof_ids_to_process column)"
  have m: "mset (as_completed ?ts) = mset ?ts" using c by (simp add: completes_all_def)
  have "mset (concat (map snd (map (extract_topo_features w) (as_completed ?ts)))) =
        mset (concat (map (\<lambda>t. snd (extract_topo_features w t)) ?ts))"
    using mset_concat_map_perm [OF m, of "\<lambda>t. snd (extract_topo_features w t)"]
    by (simp add: comp_def)
  also have "map (\<lambda>t. snd (extract_topo_features w t)) ?ts =
      map (\<lambda>i. snd (extract_topo_features w (task_of i)))
        (filter (\<lambda>i. path_exists w (task_path i)) (mof_ids_to_process column))"
    by (rule make_tasks_map)
  finally show ?thesis
    unfolding run_Some by simp
qed


lemma chem_run_Some:
  "extract_chemical_features chem_columns chem_order (Some all_files) old_log =
     Some \<lparr>chem_results =
             filter (\<lambda>r. r \<noteq> []) (List.map_filter fst (map (process_cif chem_columns)
               (chem_order (map (\<lambda>fname. (cif_folder, fname)) (cif_files_to_process all_files))))),
           chem_output_csv =
             (if filter (\<lambda>r. r \<noteq> []) (List.map_filter fst (map (process_cif chem_columns)
                   (chem_order (map (\<lambda>fname. (cif_folder, fname)) (cif_files_to_process all_files))))) = []
              then None
              else Some (DataFrame (filter (\<lambda>r. r \<noteq> []) (List.map_filter fst (map (process_cif chem_columns)
                   (chem_order (map (\<lambda>fname. (cif_folder, fname)) (cif_files_to_process all_files)))))))),
           chem_error_log =
             (if filter (\<lambda>r. r \<noteq> []) (List.map_filter fst (map (process_cif chem_columns)
                   (chem_order (map (\<lambda>fname. (cif_folder, fname)) (cif_files_to_process all_files))))) \<noteq> []
                 \<and> List.map_filter snd (map (process_cif chem_columns)
                   (chem_order (map (\<lambda>fname. (cif_folder, fname)) (cif_files_to_process all_files)))) \<noteq> []
              then map (\<lambda>(fname, reason). fname @ '': '' @ reason)
                     (List.map_filter snd (map (process_cif chem_columns)
                        (chem_order (map (\<lambda>fname. (cif_folder, fname)) (cif_files_to_process all_files)))))
              else old_log)\<rparr>"
  by (simp add: extract_chemical_features_def Let_def)

lemma chem_errors_perm:
  assumes cc: "completes_all chem_order
               (map (\<lambda>fname. (cif_folder, fname)) (cif_files_to_process all_files))"
  shows "mset (List.map_filter snd (map (process_cif chem_columns)
            (chem_order (map (\<lambda>fname. (cif_folder, fname)) (cif_files_to_process all_files))))) =
         mset (List.map_filter (\<lambda>fname. snd (process_cif chem_columns (cif_folder, fname)))
            (cif_files_to_process all_files))"
proof -
  let ?fs = "cif_files_to_process all_files"
  let ?cts = "map (\<lambda>fname. (cif_folder, fname)) ?fs"
  let ?P = "process_cif chem_columns"
  have cm: "mset (chem_order ?cts) = mset ?cts" using cc by (simp add: completes_all_def)
  have e0: "\<And>zs. List.map_filter snd (map ?P zs) = List.map_filter (\<lambda>t. snd (?P t)) zs"
    by (simp add: List.map_filter_def comp_def filter_map)
  have e2: "List.map_filter (\<lambda>t. snd (?P t)) ?cts =
            List.map_filter (\<lambda>fname. snd (?P (cif_folder, fname))) ?fs"
    by (simp add: List.map_filter_def comp_def filter_map)
  show ?thesis
    unfolding e0 using mset_map_filter_perm [OF cm, of "\<lambda>t. snd (?P t)"] e2 by simp
qed


lemma chem_results_perm:
  assumes cc: "completes_all chem_order
               (map (\<lambda>fname. (cif_folder, fname)) (cif_files_to_process all_files))"
  shows "mset (filter (\<lambda>r. r \<noteq> []) (List.map_filter fst (map (process_cif chem_columns)
            (chem_order (map (\<lambda>fname. (cif_folder, fname)) (cif_files_to_process all_files)))))) =
         mset (List.map_filter (\<lambda>fname. fst (process_cif chem_columns (cif_folder, fname)))
            (cif_files_to_process all_files))"
proof -
  let ?fs = "cif_files_to_process all_files"
  let ?cts = "map (\<lambda>fname. (cif_folder, fname)) ?fs"
  let ?P = "process_cif chem_columns"
  have cm: "mset (chem_order ?cts) = mset ?cts" using cc by (simp add: completes_all_def)
  have e0: "\<And>zs. List.map_filter fst (map ?P zs) = List.map_filter (\<lambda>t. fst (?P t)) zs"
    by (simp add: List.map_filter_def comp_def filter_map)
  have ne: "\<And>zs. filter (\<lambda>r. r \<noteq> []) (List.map_filter (\<lambda>t. fst (?P t)) zs) =
                 List.map_filter (\<lambda>t. fst (?P t)) zs"
  proof -
    fix zs
    have "\<forall>r \<in> set (List.map_filter (\<lambda>t. fst (?P t)) zs). r \<noteq> []"
      by (auto simp: List.map_filter_def process_cif_def split: sum.splits)
    then show "filter (\<lambda>r. r \<noteq> []) (List.map_filter (\<lambda>t. fst (?P t)) zs) =
                 List.map_filter (\<lambda>t. fst (?P t)) zs"
      by (simp only: filter_id_conv)
  qed
  have e2: "List.map_filter (\<lambda>t. fst (?P t)) ?cts =
            List.map_filter (\<lambda>fname. fst (?P (cif_folder, fname))) ?fs"
    by (simp add: List.map_filter_def comp_def filter_map)
  show ?thesis
    unfolding e0 ne using mset_map_filter_perm [OF cm, of "\<lambda>t. fst (?P t)"] e2 by simp
qed

lemma chem_log:
  assumes cc: "completes_all chem_order
               (map (\<lambda>fname. (cif_folder, fname)) (cif_files_to_process all_files))"
  shows "\<exists>chem.
            extract_chemical_features chem_columns chem_order (Some all_files) chem_old_log
              = Some chem \<and>
            mset (chem_results chem) =
              mset (List.map_filter (\<lambda>fname. fst (process_cif chem_columns (cif_folder, fname)))
                      (cif_files_to_process all_files)) \<and>
            mset (chem_error_log chem) =
              (if List.map_filter (\<lambda>fname. fst (process_cif chem_columns (cif_folder, fname)))
                    (cif_files_to_process all_files) \<noteq> [] \<and>
                  List.map_filter (\<lambda>fname. snd (process_cif chem_columns (cif_folder, fname)))
                    (cif_files_to_process all_files) \<noteq> []
               then mset (map (\<lambda>(fname, reason). fname @ '': '' @ reason)
                      (List.map_filter (\<lambda>fname. snd (process_cif chem_columns (cif_folder, fname)))
                         (cif_files_to_process all_files)))
               else mset chem_old_log)"
proof -
  define outs where "outs = map (process_cif chem_columns)
      (chem_order (map (\<lambda>fname. (cif_folder, fname)) (cif_files_to_process all_files)))"
  define errs where "errs = List.map_filter snd outs"
  define E where "E = List.map_filter (\<lambda>fname. snd (process_cif chem_columns (cif_folder, fname)))
                    (cif_files_to_process all_files)"
  define res where "res = filter (\<lambda>r. r \<noteq> []) (List.map_filter fst outs)"
  define R where "R = List.map_filter (\<lambda>fname. fst (process_cif chem_columns (cif_folder, fname)))
                    (cif_files_to_process all_files)"
  define h :: "string \<times> string \<Rightarrow> string" where "h = (\<lambda>(fname, reason). fname @ '': '' @ reason)"
  have m: "mset errs = mset E"
    unfolding errs_def outs_def E_def by (rule chem_errors_perm [OF cc])
  have mr: "mset res = mset R"
    unfolding res_def outs_def R_def by (rule chem_results_perm [OF cc])
  have ne: "(errs \<noteq> []) = (E \<noteq> [])"
  proof -
    have "(errs = []) = (mset errs = {#})" by simp
    also have "\<dots> = (E = [])" unfolding m by simp
    finally show ?thesis by simp
  qed
  have nr: "(res \<noteq> []) = (R \<noteq> [])"
  proof -
    have "(res = []) = (mset res = {#})" by simp
    also have "\<dots> = (R = [])" unfolding mr by simp
    finally show ?thesis by simp
  qed
  have lines: "mset (map h errs) = mset (map h E)"
  proof -
    have "mset (map h errs) = image_mset h (mset errs)" by simp
    also have "\<dots> = mset (map h E)" unfolding m by simp
    finally show ?thesis .
  qed
  have run: "extract_chemical_features chem_columns chem_order (Some all_files) chem_old_log =
     Some \<lparr>chem_results = res,
           chem_output_csv = (if res = [] then None else Some (DataFrame res)),
           chem_error_log = (if res \<noteq> [] \<and> errs \<noteq> [] then map h errs else chem_old_log)\<rparr>"
    unfolding chem_run_Some res_def errs_def outs_def h_def ..
  have "mset (if res \<noteq> [] \<and> errs \<noteq> [] then map h errs else chem_old_log) =
        (if R \<noteq> [] \<and> E \<noteq> [] then mset (map h E) else mset chem_old_log)"
    using ne nr lines by simp
  then show ?thesis
    unfolding run E_def [symmetric] R_def [symmetric] h_def [symmetric] using mr by simp
qed

lemma topo_log_file:
  assumes c: "completes_all as_completed (make_tasks w (mof_ids_to_process column))"
  shows "\<exists>out.
            extract_topological_features w as_completed (Some column) old_log = Some out \<and>
            take (length old_log) (error_log_file method old_log out) = old_log \<and>
            mset (drop (length old_log) (error_log_file method old_log out)) =
              (if method = Fork
               then mset (concat (map (\<lambda>i. snd (extract_topo_features w (task_of i)))
                     (filter (\<lambda>i. path_exists w (task_path i)) (mof_ids_to_process column))))
               else {#})"
proof -
  from topo_log [OF c, of old_log] obtain out where
    run: "extract_topological_features w as_completed (Some column) old_log = Some out"
    and pre: "take (length old_log) (error_log out) = old_log"
    and new: "mset (drop (length old_log) (error_log out)) =
              mset (concat (map (\<lambda>i. snd (extract_topo_features w (task_of i)))
                     (filter (\<lambda>i. path_exists w (task_path i)) (mof_ids_to_process column))))"
    by blast
  show ?thesis
  proof (cases "method = Fork")
    case True
    then show ?thesis using run pre new by (simp add: error_log_file_def)
  next
    case False
    then show ?thesis using run by (simp add: error_log_file_def)
  qed
qed

lemma topo_log_line:
  "snd (extract_topo_features w (task_of mof_id)) =
           (case topo_try w (task_path mof_id) mof_id of
              Inl e \<Rightarrow> [''Error processing '' @ mof_id @ '': '' @ exn_message e]
            | Inr r \<Rightarrow> [])"
  by (simp add: extract_cases split: sum.splits)

lemma process_cif_cases:
  "process_cif chem_columns (cif_folder, filename) =
           (case chem_columns (path_join cif_folder filename) of
              Inl e \<Rightarrow> (None, Some (filename, exn_message e))
            | Inr cols \<Rightarrow> (Some ((''MOF_ID'', StrV (file_mof_id filename)) # cols), None))"
  by (simp add: process_cif_def split: sum.splits)

text \<open>
  Claim C8, as the code has it. The topological log is appended to: whatever the start
  method, the old lines stay in front. With forked workers the new lines are those of the
  tasks, a failed task logging the one line \<open>Error processing <ID>: <reason>\<close> and any
  other task none; with spawned workers, or workers from the fork server, the file
  receives no line. The chemical stage collects a record for every processed file that
  parses and an error for every one that does not. If there is at least one of each, it
  writes its log anew, with one line \<open><file name>: <reason>\<close> for every failed file and
  nothing else; otherwise it leaves the log as it was.
\<close>

theorem error_logs_as_written:
  assumes c: "completes_all as_completed (make_tasks w (mof_ids_to_process column))"
    and cc: "completes_all chem_order
               (map (\<lambda>fname. (cif_folder, fname)) (cif_files_to_process all_files))"
  shows "(\<exists>out.
            extract_topological_features w as_completed (Some column) old_log = Some out \<and>
            take (length old_log) (error_log_file method old_log out) = old_log \<and>
            mset (drop (length old_log) (error_log_file method old_log out)) =
              (if method = Fork
               then mset (concat (map (\<lambda>i. snd (extract_topo_features w (task_of i)))
                     (filter (\<lambda>i. path_exists w (task_path i)) (mof_ids_to_process column))))
               else {#})) \<and>
         snd (extract_topo_features w (task_of mof_id)) =
           (case topo_try w (task_path mof_id) mof_id of
              Inl e \<Rightarrow> [''Error processing '' @ mof_id @ '': '' @ exn_message e]
            | Inr r \<Rightarrow> []) \<and>
         (\<exists>chem.
            extract_chemical_features chem_columns chem_order (Some all_files) chem_old_log
              = Some chem \<and>
            mset (chem_results chem) =
              mset (List.map_filter (\<lambda>fname. fst (process_cif chem_columns (cif_folder, fname)))
                      (cif_files_to_process all_files)) \<and>
            mset (chem_error_log chem) =
              (if List.map_filter (\<lambda>fname. fst (process_cif chem_columns (cif_folder, fname)))
                    (cif_files_to_process all_files) \<noteq> [] \<and>
                  List.map_filter (\<lambda>fname. snd (process_cif chem_columns (cif_folder, fname)))
                    (cif_files_to_process all_files) \<noteq> []
               then mset (map (\<lambda>(fname, reason). fname @ '': '' @ reason)
                      (List.map_filter (\<lambda>fname. snd (process_cif chem_columns (cif_folder, fname)))
                         (cif_files_to_process all_files)))
               else mset chem_old_log)) \<and>
         process_cif chem_columns (cif_folder, filename) =
           (case chem_columns (path_join cif_folder filename) of
              Inl e \<Rightarrow> (None, Some (filename, exn_message e))
            | Inr cols \<Rightarrow> (Some ((''MOF_ID'', StrV (file_mof_id filename)) # cols), None))"
  apply (intro conjI)
     apply (rule topo_log_file [OF c])
    apply (rule topo_log_line)
   apply (rule chem_log [OF cc])
  apply (rule process_cif_cases)
  done

lemma sample_files: "cif_files_to_process [''a.cif'', ''c.cif'', ''notes.txt''] = [''a.cif'', ''c.cif'']"
  by (simp add: cif_files_to_process_def is_core_file_def is_hmof_file_def endswith_def
      startswith_def)


theorem error_logs_as_written_witness:
  "completes_all reverse_order
     (make_tasks sample_world (mof_ids_to_process [Some ''a'', Some ''c''])) \<and>
   completes_all reverse_order
     (map (\<lambda>fname. (cif_folder, fname)) (cif_files_to_process [''a.cif'', ''c.cif'', ''notes.txt''])) \<and>
   (\<exists>out.
      extract_topological_features sample_world reverse_order (Some [Some ''a'', Some ''c''])
        [''earlier line''] = Some out \<and>
      take (length [''earlier line'']) (error_log_file Fork [''earlier line''] out)
        = [''earlier line''] \<and>
      mset (drop (length [''earlier line'']) (error_log_file Fork [''earlier line''] out)) =
        (if Fork = Fork
         then mset (concat (map (\<lambda>i. snd (extract_topo_features sample_world (task_of i)))
               (filter (\<lambda>i. path_exists sample_world (task_path i))
                  (mof_ids_to_process [Some ''a'', Some ''c'']))))
         else {#})) \<and>
   snd (extract_topo_features sample_world (task_of ''c'')) =
     (case topo_try sample_world (task_path ''c'') ''c'' of
        Inl e \<Rightarrow> [''Error processing '' @ ''c'' @ '': '' @ exn_message e]
      | Inr r \<Rightarrow> []) \<and>
   (\<exists>chem.
      extract_chemical_features sample_chem_columns reverse_order
        (Some [''a.cif'', ''c.cif'', ''notes.txt'']) [''stale line''] = Some chem \<and>
      mset (chem_results chem) =
        mset (List.map_filter (\<lambda>fname. fst (process_cif sample_chem_columns (cif_folder, fname)))
                (cif_files_to_process [''a.cif'', ''c.cif'', ''notes.txt''])) \<and>
      mset (chem_error_log chem) =
        (if List.map_filter (\<lambda>fname. fst (process_cif sample_chem_columns (cif_folder, fname)))
              (cif_files_to_process [''a.cif'', ''c.cif'', ''notes.txt'']) \<noteq> [] \<and>
            List.map_filter (\<lambda>fname. snd (process_cif sample_chem_columns (cif_folder, fname)))
              (cif_files_to_process [''a.cif'', ''c.cif'', ''notes.txt'']) \<noteq> []
         then mset (map (\<lambda>(fname, reason). fname @ '': '' @ reason)
                (List.map_filter (\<lambda>fname. snd (process_cif sample_chem_columns (cif_folder, fname)))
                   (cif_files_to_process [''a.cif'', ''c.cif'', ''notes.txt''])))
         else mset [''stale line''])) \<and>
   process_cif sample_chem_columns (cif_folder, ''c.cif'') =
     (case sample_chem_columns (path_join cif_folder ''c.cif'') of
        Inl e \<Rightarrow> (None, Some (''c.cif'', exn_message e))
      | Inr cols \<Rightarrow> (Some ((''MOF_ID'', StrV (file_mof_id ''c.cif'')) # cols), None))"
  by (rule conjI [OF completes_all_reverse conjI [OF completes_all_reverse
      error_logs_as_written [OF completes_all_reverse completes_all_reverse]]])

text \<open>
  Claim C8 as stated fails. For the failed identifier \<open>c\<close> the topological log of forked
  workers holds \<open>Error processing c: ...\<close> and not \<open>c: ...\<close>, and that of spawned workers
  holds nothing; the chemical stage replaces the stale line of its log by a line that
  starts with the file name \<open>c.cif\<close>.
\<close>

theorem error_log_line_format_counterexample:
  "map_option (error_log_file Fork [])
     (extract_topological_features sample_world submission_order (Some [Some ''c'']) [])
     = Some [''Error processing c: Invalid CIF file with no structures!''] \<and>
   ''c: Invalid CIF file with no structures!''
     \<notin> set [''Error processing c: Invalid CIF file with no structures!''] \<and>
   map_option (error_log_file Spawn [])
     (extract_topological_features sample_world submission_order (Some [Some ''c'']) [])
     = Some [] \<and>
   map_option chem_error_log
     (extract_chemical_features sample_chem_columns submission_order
        (Some [''a.cif'', ''c.cif'', ''notes.txt'']) [''stale line''])
     = Some [''c.cif: Invalid CIF file with no structures!'']"
proof -
  have ids: "mof_ids_to_process [Some ''c''] = [''c'']"
    by (simp add: mof_ids_to_process_def List.map_filter_def)
  have ts: "make_tasks sample_world [''c''] = [task_of ''c'']"
    by (simp add: make_tasks_eq sample_paths)
  have t: "map_option (error_log_file Fork [])
     (extract_topological_features sample_world submission_order (Some [Some ''c'']) [])
     = Some [''Error processing c: Invalid CIF file with no structures!'']"
    unfolding run_Some ids ts
    by (simp add: submission_order_def extract_failure [OF sample_c] error_log_file_def)
  have u: "map_option (error_log_file Spawn [])
     (extract_topological_features sample_world submission_order (Some [Some ''c'']) [])
     = Some []"
    unfolding run_Some by (simp add: error_log_file_def)
  have pa: "process_cif sample_chem_columns (cif_folder, ''a.cif'') =
      (Some [(''MOF_ID'', StrV (file_mof_id ''a.cif'')), (''formula'', StrV ''ZnO'')], None)"
    by (simp add: process_cif_def sample_chem_columns_def cif_folder_eq path_join_def)
  have pc: "process_cif sample_chem_columns (cif_folder, ''c.cif'') =
      (None, Some (''c.cif'', ''Invalid CIF file with no structures!''))"
    by (simp add: process_cif_def sample_chem_columns_def cif_folder_eq path_join_def)
  have ch: "map_option chem_error_log
     (extract_chemical_features sample_chem_columns submission_order
        (Some [''a.cif'', ''c.cif'', ''notes.txt'']) [''stale line''])
     = Some [''c.cif: Invalid CIF file with no structures!'']"
    unfolding chem_run_Some sample_files
    by (simp add: submission_order_def pa pc List.map_filter_def)
  show ?thesis using t u ch by simp
qed


section \<open>The files of the chemical stage\<close>



























































section \<open>Connectivity-dependent metrics\<close>


lemma set_expand:
  "set (expand g seen) = set seen \<union> (\<Union>u \<in> set seen. set (neighbors g u))"
  by (simp add: expand_def set_first_occurrences)

lemma distinct_expand: "distinct (expand g seen)"
  by (simp add: expand_def distinct_first_occurrences)

lemma expand_closed_iff:
  "set (expand g seen) = set seen \<longleftrightarrow> closed_under_neighbors g (set seen)"
  by (auto simp: set_expand closed_under_neighbors_def)

lemma plain_bfs_closed:
  "closed_under_neighbors g (set seen) \<Longrightarrow> set (plain_bfs k g seen) = set seen"
proof (induction k arbitrary: seen)
  case 0
  then show ?case by simp
next
  case (Suc k)
  have e: "set (expand g seen) = set seen" using Suc.prems by (simp add: expand_closed_iff)
  then have "closed_under_neighbors g (set (expand g seen))" using Suc.prems by simp
  from Suc.IH [OF this] show ?case using e by simp
qed

lemma plain_bfs_mono: "set seen \<subseteq> set (plain_bfs k g seen)"
proof (induction k arbitrary: seen)
  case 0
  then show ?case by simp
next
  case (Suc k)
  have "set seen \<subseteq> set (expand g seen)" by (auto simp: set_expand)
  also have "\<dots> \<subseteq> set (plain_bfs k g (expand g seen))" by (rule Suc.IH)
  finally show ?case by simp
qed

lemma neighbors_nodes: "set (neighbors g u) \<subseteq> set (g_nodes g)"
  by (auto simp: neighbors_def)

lemma plain_bfs_nodes:
  "set seen \<subseteq> set (g_nodes g) \<Longrightarrow> set (plain_bfs k g seen) \<subseteq> set (g_nodes g)"
proof (induction k arbitrary: seen)
  case 0
  then show ?case by simp
next
  case (Suc k)
  have "set (expand g seen) \<subseteq> set (g_nodes g)"
    using Suc.prems neighbors_nodes by (auto simp: set_expand)
  from Suc.IH [OF this] show ?case by simp
qed

lemma distinct_plain_bfs: "distinct seen \<Longrightarrow> distinct (plain_bfs k g seen)"
  by (induction k arbitrary: seen) (simp_all add: distinct_expand)

lemma plain_bfs_sound: "set (plain_bfs k g seen) \<subseteq> (steps g)\<^sup>* `` set seen"
proof (induction k arbitrary: seen)
  case 0
  then show ?case by auto
next
  case (Suc k)
  have "set (expand g seen) \<subseteq> (steps g)\<^sup>* `` set seen"
    by (auto simp: set_expand steps_def)
  then have "(steps g)\<^sup>* `` set (expand g seen) \<subseteq> (steps g)\<^sup>* `` set seen"
    by (auto intro: rtrancl_trans)
  then show ?case using Suc.IH [of "expand g seen"] by auto
qed

text \<open>Either the search has stopped growing, or every round so far has added a node.\<close>

lemma plain_bfs_grows:
  "closed_under_neighbors g (set (plain_bfs k g seen)) \<or>
   card (set seen) + k \<le> card (set (plain_bfs k g seen))"
proof (induction k arbitrary: seen)
  case 0
  then show ?case by simp
next
  case (Suc k)
  show ?case
  proof (cases "closed_under_neighbors g (set seen)")
    case True
    then have "set (plain_bfs (Suc k) g seen) = set seen" by (rule plain_bfs_closed)
    then show ?thesis using True by simp
  next
    case False
    then have "set (expand g seen) \<noteq> set seen" by (simp add: expand_closed_iff)
    moreover have "set seen \<subseteq> set (expand g seen)" by (auto simp: set_expand)
    ultimately have "set seen \<subset> set (expand g seen)" by blast
    then have "card (set seen) < card (set (expand g seen))"
      by (simp add: psubset_card_mono)
    then show ?thesis using Suc.IH [of "expand g seen"] by auto
  qed
qed

lemma component_closed:
  assumes s: "s \<in> set (g_nodes g)"
  shows "closed_under_neighbors g (set (node_component g s))"
proof (rule ccontr)
  assume n: "\<not> ?thesis"
  let ?N = "length (g_nodes g)"
  have "card (set [s]) + ?N \<le> card (set (plain_bfs ?N g [s]))"
    using plain_bfs_grows [of g ?N "[s]"] n by (simp add: node_component_def)
  moreover have "set (plain_bfs ?N g [s]) \<subseteq> set (g_nodes g)"
    by (rule plain_bfs_nodes) (use s in simp)
  then have "card (set (plain_bfs ?N g [s])) \<le> card (set (g_nodes g))"
    by (simp add: card_mono)
  moreover have "card (set (g_nodes g)) \<le> ?N" by (rule card_length)
  ultimately show False by simp
qed

lemma closed_reach:
  assumes c: "closed_under_neighbors g S" and r: "(u, v) \<in> (steps g)\<^sup>*" and u: "u \<in> S"
  shows "v \<in> S"
  using r u
proof (induction rule: rtrancl_induct)
  case base
  then show ?case by simp
next
  case (step y z)
  then show ?case using c by (auto simp: closed_under_neighbors_def steps_def)
qed

lemma component_reach:
  assumes s: "s \<in> set (g_nodes g)"
  shows "set (node_component g s) = (steps g)\<^sup>* `` {s}"
proof
  show "set (node_component g s) \<subseteq> (steps g)\<^sup>* `` {s}"
    using plain_bfs_sound [of "length (g_nodes g)" g "[s]"] by (simp add: node_component_def)
next
  have "s \<in> set (node_component g s)"
    using plain_bfs_mono [of "[s]" "length (g_nodes g)" g] by (simp add: node_component_def)
  then show "(steps g)\<^sup>* `` {s} \<subseteq> set (node_component g s)"
    using closed_reach [OF component_closed [OF s]] by blast
qed

lemma steps_sym: "u \<in> set (g_nodes g) \<Longrightarrow> (u, v) \<in> steps g \<Longrightarrow> (v, u) \<in> steps g"
  by (auto simp: steps_def neighbors_def has_edge_def)

lemma steps_in_nodes: "(u, v) \<in> steps g \<Longrightarrow> v \<in> set (g_nodes g)"
  by (auto simp: steps_def neighbors_def)

lemma reach_sym:
  assumes r: "(u, v) \<in> (steps g)\<^sup>*" and u: "u \<in> set (g_nodes g)"
  shows "v \<in> set (g_nodes g) \<and> (v, u) \<in> (steps g)\<^sup>*"
  using r u
proof (induction rule: rtrancl_induct)
  case base
  then show ?case by simp
next
  case (step y z)
  then have y: "y \<in> set (g_nodes g)" "(y, u) \<in> (steps g)\<^sup>*" by auto
  have "(z, y) \<in> steps g" using steps_sym [OF y(1) step.hyps(2)] .
  then have "(z, u) \<in> (steps g)\<^sup>*" using y(2) by (rule converse_rtrancl_into_rtrancl)
  then show ?case using steps_in_nodes [OF step.hyps(2)] by simp
qed


lemma connected_all:
  assumes c: "is_connected g = Inr True"
  shows "g_nodes g \<noteq> [] \<and> distinct (g_nodes g) \<and>
         (\<forall>v \<in> set (g_nodes g). set (node_component g v) = set (g_nodes g))"
proof -
  from c obtain s rest where n: "g_nodes g = s # rest"
    and l: "length (node_component g s) = length (g_nodes g)"
    by (auto simp: is_connected_def split: list.splits)
  have s: "s \<in> set (g_nodes g)" by (simp add: n)
  have dc: "distinct (node_component g s)"
    by (simp add: node_component_def distinct_plain_bfs)
  have sub: "set (node_component g s) \<subseteq> set (g_nodes g)"
    unfolding node_component_def by (rule plain_bfs_nodes) (use s in simp)
  have "card (set (node_component g s)) = length (g_nodes g)"
    using dc l by (simp add: distinct_card)
  moreover have "card (set (node_component g s)) \<le> card (set (g_nodes g))"
    using sub by (simp add: card_mono)
  moreover have "card (set (g_nodes g)) \<le> length (g_nodes g)" by (rule card_length)
  ultimately have cn: "card (set (g_nodes g)) = length (g_nodes g)"
    and ce: "card (set (node_component g s)) = card (set (g_nodes g))" by simp_all
  have d: "distinct (g_nodes g)" using cn by (rule card_distinct)
  have all: "set (node_component g s) = set (g_nodes g)"
    using sub ce by (simp add: card_subset_eq)
  have "set (node_component g v) = set (g_nodes g)" if v: "v \<in> set (g_nodes g)" for v
  proof
    show "set (node_component g v) \<subseteq> set (g_nodes g)"
      unfolding node_component_def by (rule plain_bfs_nodes) (use v in simp)
  next
    show "set (g_nodes g) \<subseteq> set (node_component g v)"
    proof
      fix x assume x: "x \<in> set (g_nodes g)"
      have sv: "(s, v) \<in> (steps g)\<^sup>*" using v all component_reach [OF s] by auto
      have sx: "(s, x) \<in> (steps g)\<^sup>*" using x all component_reach [OF s] by auto
      have "(v, s) \<in> (steps g)\<^sup>*" using reach_sym [OF sv s] by simp
      then have "(v, x) \<in> (steps g)\<^sup>*" using sx by (rule rtrancl_trans)
      then show "x \<in> set (node_component g v)" using component_reach [OF v] by auto
    qed
  qed
  then show ?thesis using n d by simp
qed

lemma eccentricity_connected:
  assumes c: "is_connected g = Inr True" and v: "v \<in> set (g_nodes g)"
  shows "\<exists>e. eccentricity g v = Inr e"
proof -
  have d: "distinct (g_nodes g)" and a: "set (node_component g v) = set (g_nodes g)"
    using connected_all [OF c] v by auto
  have "distinct (node_component g v)"
    by (simp add: node_component_def distinct_plain_bfs)
  then have "length (node_component g v) = card (set (g_nodes g))"
    using a by (simp add: distinct_card [symmetric])
  then have "length (node_component g v) = length (g_nodes g)"
    using d by (simp add: distinct_card)
  then show ?thesis
    by (simp add: eccentricity_def single_source_shortest_path_length_def Let_def)
qed

lemma eccentricities_connected:
  assumes c: "is_connected g = Inr True"
  shows "set ns \<subseteq> set (g_nodes g) \<Longrightarrow>
         \<exists>es. eccentricities g ns = Inr es \<and> length es = length ns"
proof (induction ns)
  case Nil
  then show ?case by simp
next
  case (Cons n ns)
  then obtain es where es: "eccentricities g ns = Inr es" "length es = length ns" by auto
  from Cons.prems eccentricity_connected [OF c, of n] obtain e where "eccentricity g n = Inr e"
    by auto
  then show ?case using es by simp
qed

lemma foldr_max: "foldr max xs (x::nat) = Max (set (x # xs))"
proof (induction xs)
  case Nil
  then show ?case by simp
next
  case (Cons y ys)
  have "Max (insert y (insert x (set ys))) = max y (Max (insert x (set ys)))"
    by (rule Max_insert) simp_all
  then show ?case using Cons by (simp add: insert_commute)
qed

lemma foldr_min: "foldr min xs (x::nat) = Min (set (x # xs))"
proof (induction xs)
  case Nil
  then show ?case by simp
next
  case (Cons y ys)
  have "Min (insert y (insert x (set ys))) = min y (Min (insert x (set ys)))"
    by (rule Min_insert) simp_all
  then show ?case using Cons by (simp add: insert_commute)
qed

lemma nonneg_not_minus_one: "0 \<le> x \<Longrightarrow> \<not> is_minus_one (FloatV x)"
  by simp

lemma aspl_connected:
  assumes c: "is_connected g = Inr True"
  shows "\<exists>a. average_shortest_path_length g = Inr a \<and> \<not> is_minus_one a"
proof -
  have ne: "g_nodes g \<noteq> []" using connected_all [OF c] by simp
  then have n0: "length (g_nodes g) \<noteq> 0" by simp
  show ?thesis
  proof (cases "length (g_nodes g) = 1")
    case True
    then show ?thesis by (simp add: average_shortest_path_length_def)
  next
    case False
    define x where "x = real (sum_list (concat (map
                        (\<lambda>u. map snd (single_source_shortest_path_length g u)) (g_nodes g))))
                      / real (length (g_nodes g) * (length (g_nodes g) - 1))"
    have "average_shortest_path_length g = Inr (FloatV x)"
      using False n0 c by (simp add: average_shortest_path_length_def Let_def x_def)
    moreover have "0 \<le> x" by (simp add: x_def)
    then have "\<not> is_minus_one (FloatV x)" by (rule nonneg_not_minus_one)
    ultimately show ?thesis by blast
  qed
qed


lemma connected_features:
  assumes c: "is_connected g = Inr True"
  shows "\<exists>es a.
           eccentricities g (g_nodes g) = Inr es \<and> es \<noteq> [] \<and>
           average_shortest_path_length g = Inr a \<and>
           connectivity_features g True =
             Inr [(''graph_diameter'', IntV (int (Max (set es)))),
                  (''graph_radius'', IntV (int (Min (set es)))),
                  (''avg_shortest_path_length'', a)] \<and>
           \<not> is_minus_one (IntV (int (Max (set es)))) \<and>
           \<not> is_minus_one (IntV (int (Min (set es)))) \<and>
           \<not> is_minus_one a"
proof -
  have ne: "g_nodes g \<noteq> []" using connected_all [OF c] by simp
  from eccentricities_connected [OF c, of "g_nodes g"] obtain es where
    es: "eccentricities g (g_nodes g) = Inr es" "length es = length (g_nodes g)" by auto
  from es(2) ne obtain x xs where x: "es = x # xs" by (cases es) auto
  from aspl_connected [OF c] obtain a where
    a: "average_shortest_path_length g = Inr a" "\<not> is_minus_one a" by blast
  have d: "diameter g = Inr (Max (set es))"
    by (simp add: diameter_def es(1) x foldr_max)
  have r: "radius g = Inr (Min (set es))"
    by (simp add: radius_def es(1) x foldr_min)
  have cf: "connectivity_features g True =
             Inr [(''graph_diameter'', IntV (int (Max (set es)))),
                  (''graph_radius'', IntV (int (Min (set es)))),
                  (''avg_shortest_path_length'', a)]"
    by (simp add: connectivity_features_def d r a(1))
  have m: "\<not> is_minus_one (IntV (int (Max (set es))))" "\<not> is_minus_one (IntV (int (Min (set es))))"
    by simp_all
  show ?thesis using es(1) x a cf m by blast
qed

lemma topo_features_tail:
  assumes c: "is_connected g = Inr c" and r: "topo_features w mof_id g = Inr r"
  shows "connectivity_features g c = Inr (drop 10 r)"
  using r unfolding topo_features_def c Let_def
  by (auto split: sum.splits)

text \<open>
  Claim C3, as the code has it. Let \<open>nx.is_connected\<close> answer \<open>c\<close> for the graph, which
  it does for every graph with at least one node. If the graph is disconnected, the
  diameter, the radius and the average shortest path length are all exactly \<open>-1\<close>. If it
  is connected, every node has an eccentricity, the diameter is the greatest and the
  radius the least of them, the average shortest path length is computed too, and none of
  the three equals \<open>-1\<close>. A single node counts as connected: there the three values are
  0, not \<open>-1\<close>. In both cases these three entries are the end of the record of the task.
\<close>

theorem connectivity_dependent_metrics:
  assumes c: "is_connected g = Inr c"
  shows "(if c
          then \<exists>es a.
                 eccentricities g (g_nodes g) = Inr es \<and> es \<noteq> [] \<and>
                 average_shortest_path_length g = Inr a \<and>
                 connectivity_features g c =
                   Inr [(''graph_diameter'', IntV (int (Max (set es)))),
                        (''graph_radius'', IntV (int (Min (set es)))),
                        (''avg_shortest_path_length'', a)] \<and>
                 \<not> is_minus_one (IntV (int (Max (set es)))) \<and>
                 \<not> is_minus_one (IntV (int (Min (set es)))) \<and>
                 \<not> is_minus_one a
          else connectivity_features g c =
                 Inr [(''graph_diameter'', IntV (- 1)),
                      (''graph_radius'', IntV (- 1)),
                      (''avg_shortest_path_length'', IntV (- 1))]) \<and>
         (\<forall>r. topo_features w mof_id g = Inr r \<longrightarrow> connectivity_features g c = Inr (drop 10 r))"
proof (cases c)
  case True
  then have "is_connected g = Inr True" using c by simp
  from connected_features [OF this] show ?thesis
    using True topo_features_tail [OF c] by simp
next
  case False
  then show ?thesis using topo_features_tail [OF c] by (simp add: connectivity_features_def)
qed

lemma three_isolated_disconnected: "is_connected three_isolated_nodes = Inr False"
  by (simp add: is_connected_def three_isolated_nodes_def node_component_def expand_def
      neighbors_def has_edge_def numeral_3_eq_3)

lemma sample_topo_features:
  "topo_features sample_world ''a'' one_bond_graph =
     Inr [(''MOF_ID'', StrV ''a''),
          (''avg_node_connectivity'', FloatV 1),
          (''graph_density'', FloatV 1),
          (''num_connected_components'', IntV 1),
          (''largest_cc_fraction'', FloatV 1),
          (''is_connected'', IntV 1),
          (''clustering_coefficient_mean'', FloatV 0),
          (''degree_assortativity'', NaN),
          (''graph_transitivity'', IntV 0),
          (''graph_entropy'', FloatV 0),
          (''graph_diameter'', IntV 1),
          (''graph_radius'', IntV 1),
          (''avg_shortest_path_length'', FloatV 1)]"
  by (simp add: sample_world_def topo_features_def pair_connected pair_connectivity pair_entropy
      pair_components pair_degrees density_def one_bond_fields)

theorem connectivity_dependent_metrics_witness:
  "is_connected one_bond_graph = Inr True \<and>
   (\<exists>es a.
      eccentricities one_bond_graph (g_nodes one_bond_graph) = Inr es \<and> es \<noteq> [] \<and>
      average_shortest_path_length one_bond_graph = Inr a \<and>
      connectivity_features one_bond_graph True =
        Inr [(''graph_diameter'', IntV (int (Max (set es)))),
             (''graph_radius'', IntV (int (Min (set es)))),
             (''avg_shortest_path_length'', a)] \<and>
      \<not> is_minus_one (IntV (int (Max (set es)))) \<and>
      \<not> is_minus_one (IntV (int (Min (set es)))) \<and>
      \<not> is_minus_one a) \<and>
   (\<exists>r. topo_features sample_world ''a'' one_bond_graph = Inr r \<and>
        connectivity_features one_bond_graph True = Inr (drop 10 r)) \<and>
   connectivity_features one_bond_graph True =
     Inr [(''graph_diameter'', IntV 1), (''graph_radius'', IntV 1),
          (''avg_shortest_path_length'', FloatV 1)]"
proof -
  note t = connectivity_dependent_metrics [OF pair_connected, of sample_world "''a''"]
  from t have 1: "\<exists>es a.
      eccentricities one_bond_graph (g_nodes one_bond_graph) = Inr es \<and> es \<noteq> [] \<and>
      average_shortest_path_length one_bond_graph = Inr a \<and>
      connectivity_features one_bond_graph True =
        Inr [(''graph_diameter'', IntV (int (Max (set es)))),
             (''graph_radius'', IntV (int (Min (set es)))),
             (''avg_shortest_path_length'', a)] \<and>
      \<not> is_minus_one (IntV (int (Max (set es)))) \<and>
      \<not> is_minus_one (IntV (int (Min (set es)))) \<and>
      \<not> is_minus_one a"
    by simp
  from t sample_topo_features have 2: "\<exists>r. topo_features sample_world ''a'' one_bond_graph = Inr r \<and>
        connectivity_features one_bond_graph True = Inr (drop 10 r)"
    by blast
  show ?thesis using pair_connected 1 2 pair_connectivity by blast
qed

text \<open>Three nodes without edges: disconnected, so the three values are the sentinel.\<close>

lemma three_isolated_sentinel:
  "connectivity_features three_isolated_nodes False =
     Inr [(''graph_diameter'', IntV (- 1)), (''graph_radius'', IntV (- 1)),
          (''avg_shortest_path_length'', IntV (- 1))]"
  by (simp add: connectivity_features_def)

text \<open>
  Claim C3 as stated fails for \<open>N = 1\<close>: the graph with a single node is connected and its
  three values are 0.
\<close>

theorem single_node_is_not_sentinel_counterexample:
  "length (g_nodes single_node_graph) \<le> 1 \<and>
   is_connected single_node_graph = Inr True \<and>
   connectivity_features single_node_graph True =
     Inr [(''graph_diameter'', IntV 0), (''graph_radius'', IntV 0),
          (''avg_shortest_path_length'', IntV 0)] \<and>
   \<not> is_minus_one (IntV 0)"
  by (simp add: single_node_graph_def is_connected_def node_component_def expand_def
      neighbors_def has_edge_def connectivity_features_def diameter_def radius_def
      eccentricity_def single_source_shortest_path_length_def average_shortest_path_length_def)


section \<open>Totality of the features\<close>








end
